theory Spec2Isabelle
  imports Main "HOL-Library.Word"
begin

unbundle bit_operations_syntax

section \<open>The AIML engine of the chatbot (nlp-engine/aimlengine.cpp)\<close>

text \<open>
  The engine keeps a list of rules, one AIML parser per conversation partner ("target")
  and the current topic of every partner. A rule set is compiled into AIML documents, one
  per target; a request is answered by the parser of the target and, when that one has no
  answer, by the parser of the rules that have no target.

  Strings (\<open>QString\<close>) are \<^typ>\<open>string\<close>, \<open>long\<close> is a 64-bit word (the code assumes
  \<open>sizeof(long) == 8\<close>), \<open>int\<close> a 32-bit word. The engine's member variables are the fields
  of a record that every operation takes and returns.
\<close>

subsection \<open>Match identity: packing a rule id and an input number\<close>

type_synonym long = "64 word"
type_synonym cint = "32 word"

text \<open>
  \<open>Lvk::Nlp::RuleId\<close> is declared in nlp-engine/rule.h, which is not among the sources.
  The comment above \<open>getCategoryId\<close> counts \<open>2^52\<close> rule ids next to 12 bits of input
  number in an 8-byte \<open>long\<close>, so a rule id is a 64-bit value here. The casts between
  \<open>RuleId\<close> and \<open>long\<close> keep the 64 bits, whether \<open>RuleId\<close> is signed or not.
\<close>

type_synonym RuleId = "64 word"

definition INPUT_NUMBER_BITS :: nat where
  "INPUT_NUMBER_BITS = 12"

definition INPUT_NUMBER_MASK :: long where
  "INPUT_NUMBER_MASK = 0xfff"

text \<open>\<open>((long)ruleId << INPUT_NUMBER_BITS) | (long)inputNumber\<close>: the \<open>int\<close> is sign-extended.\<close>

definition getCategoryId :: "RuleId \<Rightarrow> cint \<Rightarrow> long" where
  "getCategoryId ruleId inputNumber =
     push_bit INPUT_NUMBER_BITS ruleId OR scast inputNumber"

text \<open>\<open>categoryId >> INPUT_NUMBER_BITS\<close> on a signed \<open>long\<close>: an arithmetic shift.\<close>

definition getRuleId :: "long \<Rightarrow> RuleId" where
  "getRuleId categoryId = signed_drop_bit INPUT_NUMBER_BITS categoryId"

text \<open>\<open>categoryId & INPUT_NUMBER_MASK\<close>, returned as \<open>int\<close>.\<close>

definition getInputNumber :: "long \<Rightarrow> cint" where
  "getInputNumber categoryId = ucast (categoryId AND INPUT_NUMBER_MASK)"

type_synonym MatchList = "(RuleId \<times> cint) list"

text \<open>
  \<open>convert\<close> clears the match list and appends the pair of the last category id, if there
  is one.
\<close>

definition convert :: "MatchList \<Rightarrow> long list \<Rightarrow> MatchList" where
  "convert matches categoriesId =
     (if length categoriesId > 0
      then [(getRuleId (last categoriesId), getInputNumber (last categoriesId))]
      else [])"

subsection \<open>Rules and the AIML document built from them\<close>

text \<open>
  A rule (\<open>Nlp::Rule\<close>, read through \<open>id()\<close>, \<open>input()\<close>, \<open>output()\<close>, \<open>target()\<close> and
  \<open>topic()\<close>).
\<close>

record Rule =
  rule_id :: RuleId
  rule_input :: "string list"
  rule_output :: "string list"
  rule_target :: "string list"
  rule_topic :: string

text \<open>
  The AIML text that \<open>buildAiml\<close> writes is kept as its syntax tree. A category
  \<^verbatim>\<open><category><id>%1</id><pattern>%2</pattern><template><think><set name="topic">%3</set></think>%4</template></category>\<close>
  is the record of its four holes (the id is the number whose decimal form the text
  holds); \<open>Topic name c\<close> is the category \<open>c\<close> inside \<^verbatim>\<open><topic name="...">\<close>. A document is
  the list of elements between \<^verbatim>\<open><aiml>\<close> and \<^verbatim>\<open></aiml>\<close>.
\<close>

record category =
  cat_id :: long
  cat_pattern :: string
  cat_topic :: string
  cat_template :: string

datatype aiml_elem = Category category | Topic string category

type_synonym aiml = "aiml_elem list"

text \<open>
  The parser class \<open>AIMLParser\<close> (third-party/ProgramQ) is not among the sources. The
  engine uses its constructor and the methods \<open>setTopic\<close>, \<open>getResponse\<close> and \<open>topic\<close>;
  they are a parameter of the model, over any type \<open>'p\<close> of parser states. \<open>getResponse\<close>
  returns the response, the ids of the matched categories and the parser's new state.
\<close>

record 'p AIMLParser =
  parser_new :: "aiml \<Rightarrow> 'p"
  parser_setTopic :: "string \<Rightarrow> 'p \<Rightarrow> 'p"
  parser_getResponse :: "string \<Rightarrow> 'p \<Rightarrow> string \<times> long list \<times> 'p"
  parser_topic :: "'p \<Rightarrow> string"

text \<open>
  The engine. The sanitizers and the lemmatizer are objects with one pure method from
  text to text.
\<close>

record 'p AimlEngine =
  m_rules :: "Rule list"
  m_parsers :: "string \<rightharpoonup> 'p"
  m_topics :: "string \<rightharpoonup> string"
  m_preSanitizer :: "string \<Rightarrow> string"
  m_lemmatizer :: "string \<Rightarrow> string"
  m_postSanitizer :: "string \<Rightarrow> string"
  m_dirty :: bool
  m_setTopics :: bool

definition ANY_USER :: string where
  "ANY_USER = ''''"

text \<open>The constructor that takes the three collaborators.\<close>

definition AimlEngine_new ::
  "(string \<Rightarrow> string) \<Rightarrow> (string \<Rightarrow> string) \<Rightarrow> (string \<Rightarrow> string) \<Rightarrow> 'p AimlEngine" where
  "AimlEngine_new preSanitizer lemmatizer postSanitizer =
     \<lparr>m_rules = [], m_parsers = Map.empty, m_topics = Map.empty,
      m_preSanitizer = preSanitizer, m_lemmatizer = lemmatizer,
      m_postSanitizer = postSanitizer, m_dirty = False, m_setTopics = False\<rparr>"

definition setRules :: "Rule list \<Rightarrow> 'p AimlEngine \<Rightarrow> 'p AimlEngine" where
  "setRules rules E = E\<lparr>m_rules := rules, m_dirty := True\<rparr>"

text \<open>\<open>normalize\<close>: the pre-sanitizer, the lemmatizer, the post-sanitizer.\<close>

definition normalize_input :: "'p AimlEngine \<Rightarrow> string \<Rightarrow> string" where
  "normalize_input E inp = m_postSanitizer E (m_lemmatizer E (m_preSanitizer E inp))"

text \<open>\<open>str.replace('&', "&amp;")\<close>\<close>

definition escape :: "string \<Rightarrow> string" where
  "escape str = concat (map (\<lambda>c. if c = CHR ''&'' then ''&amp;'' else [c]) str)"

text \<open>\<open>QString::remove(QChar)\<close> and \<open>QString::trimmed()\<close>, on the ASCII white space.\<close>

definition remove :: "char \<Rightarrow> string \<Rightarrow> string" where
  "remove c str = filter (\<lambda>x. x \<noteq> c) str"

definition isSpace :: "char \<Rightarrow> bool" where
  "isSpace c = (c = CHR '' '' \<or> c \<in> {CHR 0x09, CHR 0x0A, CHR 0x0B, CHR 0x0C, CHR 0x0D})"

definition trimmed :: "string \<Rightarrow> string" where
  "trimmed str = rev (dropWhile isSpace (rev (dropWhile isSpace str)))"

text \<open>
  \<open>buildAimlRandOutput\<close>: one output is the template itself, several are the items of a
  \<^verbatim>\<open><random>\<close> element, none is the empty template.
\<close>

fun buildAimlRandOutput_items :: "string \<Rightarrow> string list \<Rightarrow> string" where
  "buildAimlRandOutput_items aiml [] = aiml"
| "buildAimlRandOutput_items aiml (out # outs) =
     buildAimlRandOutput_items (aiml @ ''<li>'' @ out @ ''</li>'') outs"

definition buildAimlRandOutput :: "string list \<Rightarrow> string" where
  "buildAimlRandOutput outs =
     (if length outs = 1 then hd outs
      else if length outs > 1
      then buildAimlRandOutput_items ''<random>'' outs @ ''</random>''
      else '''')"

text \<open>
  \<open>buildAiml(aiml, rule)\<close>: the loop over the inputs of the rule, \<open>i\<close> counting from 0.
  With \<open>m_setTopics\<close> the category is written twice, under the rule's topic and under
  the empty topic.
\<close>

fun buildAiml_rule_loop ::
  "'p AimlEngine \<Rightarrow> Rule \<Rightarrow> aiml \<Rightarrow> nat \<Rightarrow> string list \<Rightarrow> aiml" where
  "buildAiml_rule_loop E rule aiml i [] = aiml"
| "buildAiml_rule_loop E rule aiml i (inp # inputs) =
     (let catId = getCategoryId (rule_id rule) (of_nat i);
          pat = escape (normalize_input E (trimmed inp));
          randOutput = escape (buildAimlRandOutput (rule_output rule));
          topic = escape (remove (CHR 0x22) (rule_topic rule));
          cat = \<lparr>cat_id = catId, cat_pattern = pat, cat_topic = topic,
                 cat_template = randOutput\<rparr>
      in buildAiml_rule_loop E rule
           (if m_setTopics E then aiml @ [Topic topic cat, Topic '''' cat]
            else aiml @ [Category cat])
           (Suc i) inputs)"

definition buildAiml_rule :: "'p AimlEngine \<Rightarrow> aiml \<Rightarrow> Rule \<Rightarrow> aiml" where
  "buildAiml_rule E aiml rule = buildAiml_rule_loop E rule aiml 0 (rule_input rule)"

text \<open>\<open>buildAiml(aiml, target)\<close>: the loop over \<open>m_rules\<close>.\<close>

fun buildAiml_loop :: "'p AimlEngine \<Rightarrow> string \<Rightarrow> aiml \<Rightarrow> Rule list \<Rightarrow> aiml" where
  "buildAiml_loop E target aiml [] = aiml"
| "buildAiml_loop E target aiml (rule # rules) =
     buildAiml_loop E target
       (if (target = ANY_USER \<and> rule_target rule = []) \<or> target \<in> set (rule_target rule)
        then buildAiml_rule E aiml rule
        else aiml)
       rules"

definition buildAiml :: "'p AimlEngine \<Rightarrow> string \<Rightarrow> aiml" where
  "buildAiml E target = buildAiml_loop E target [] (m_rules E)"

text \<open>
  \<open>refreshAiml\<close>: the parsers are dropped, the parser of the rules without target is
  built, then one parser for every target not yet there, rule by rule.
\<close>

fun refreshAiml_targets ::
  "'p AIMLParser \<Rightarrow> 'p AimlEngine \<Rightarrow> (string \<rightharpoonup> 'p) \<Rightarrow> string list \<Rightarrow> (string \<rightharpoonup> 'p)" where
  "refreshAiml_targets P E parsers [] = parsers"
| "refreshAiml_targets P E parsers (target # targets) =
     refreshAiml_targets P E
       (if parsers target = None
        then parsers(target \<mapsto> parser_new P (buildAiml E target))
        else parsers)
       targets"

fun refreshAiml_rules ::
  "'p AIMLParser \<Rightarrow> 'p AimlEngine \<Rightarrow> (string \<rightharpoonup> 'p) \<Rightarrow> Rule list \<Rightarrow> (string \<rightharpoonup> 'p)" where
  "refreshAiml_rules P E parsers [] = parsers"
| "refreshAiml_rules P E parsers (rule # rules) =
     refreshAiml_rules P E (refreshAiml_targets P E parsers (rule_target rule)) rules"

definition refreshAiml :: "'p AIMLParser \<Rightarrow> 'p AimlEngine \<Rightarrow> 'p AimlEngine" where
  "refreshAiml P E =
     E\<lparr>m_parsers :=
         refreshAiml_rules P E
           (Map.empty(ANY_USER \<mapsto> parser_new P (buildAiml E ANY_USER))) (m_rules E)\<rparr>"

subsection \<open>Answering a request\<close>

text \<open>
  \<open>m_topics[target]\<close> reads the topic of a partner, the empty string when there is none
  yet.
\<close>

definition tracked_topic :: "'p AimlEngine \<Rightarrow> string \<Rightarrow> string" where
  "tracked_topic E target = (case m_topics E target of None \<Rightarrow> '''' | Some t \<Rightarrow> t)"

text \<open>
  \<open>getAllResponsesWithParser\<close>: without a parser of that name nothing happens. Otherwise
  the parser is given the partner's topic, asked, and its topic is stored for the partner.
  An empty response drops the category ids; the response counts when it is not
  \<open>"Internal Error!"\<close> and there are category ids.
\<close>

definition getAllResponsesWithParser ::
  "'p AIMLParser \<Rightarrow> string \<Rightarrow> string \<Rightarrow> MatchList \<Rightarrow> string \<Rightarrow> 'p AimlEngine
     \<Rightarrow> string list \<times> MatchList \<times> 'p AimlEngine" where
  "getAllResponsesWithParser P normInput target matches parserName E =
     (case m_parsers E parserName of
        None \<Rightarrow> ([], matches, E)
      | Some p \<Rightarrow>
          (case parser_getResponse P normInput
                  (parser_setTopic P (tracked_topic E target) p) of
             (response, categoriesId, p') \<Rightarrow>
               (let E' = E\<lparr>m_parsers := (m_parsers E)(parserName \<mapsto> p'),
                            m_topics := (m_topics E)(target \<mapsto> parser_topic P p')\<rparr>;
                    categoriesId' = (if response = '''' then [] else categoriesId)
                in if response \<noteq> ''Internal Error!'' \<and> length categoriesId' > 0
                   then ([response], convert matches categoriesId', E')
                   else ([], matches, E'))))"

text \<open>
  \<open>_getAllResponses\<close>: a dirty engine is rebuilt first; the input is normalized and
  loses its \<open>&\<close>; the parser of the target is asked and, when it has no response and the
  target is not \<open>ANY_USER\<close>, the parser of \<open>ANY_USER\<close>. Its first statement,
  \<^verbatim>\<open>if (m_dirty) { refreshAiml(); m_dirty = false; }\<close>, is \<open>refreshed\<close>, and the input it
  hands to the parsers is \<open>normInput_of\<close>.
\<close>

definition refreshed :: "'p AIMLParser \<Rightarrow> 'p AimlEngine \<Rightarrow> 'p AimlEngine" where
  "refreshed P E = (if m_dirty E then (refreshAiml P E)\<lparr>m_dirty := False\<rparr> else E)"

definition normInput_of :: "'p AimlEngine \<Rightarrow> string \<Rightarrow> string" where
  "normInput_of E inp = remove (CHR ''&'') (normalize_input E inp)"

definition getAllResponses_inner ::
  "'p AIMLParser \<Rightarrow> string \<Rightarrow> string \<Rightarrow> MatchList \<Rightarrow> 'p AimlEngine
     \<Rightarrow> string list \<times> MatchList \<times> 'p AimlEngine" where
  "getAllResponses_inner P inp target matches E =
     (let E1 = refreshed P E;
          normInput = normInput_of E1 inp
      in case getAllResponsesWithParser P normInput target matches target E1 of
           (responses, matches', E2) \<Rightarrow>
             if responses = [] \<and> target \<noteq> ANY_USER
             then getAllResponsesWithParser P normInput target matches' ANY_USER E2
             else (responses, matches', E2))"

definition getAllResponses ::
  "'p AIMLParser \<Rightarrow> string \<Rightarrow> string \<Rightarrow> MatchList \<Rightarrow> 'p AimlEngine
     \<Rightarrow> string list \<times> MatchList \<times> 'p AimlEngine" where
  "getAllResponses P inp target matches E = getAllResponses_inner P inp target matches E"

text \<open>
  \<open>getResponse\<close> returns the first response and the first match. Its \<open>assert\<close> is the
  error \<open>AssertionFailed\<close>.
\<close>

datatype error = AssertionFailed

definition getResponse ::
  "'p AIMLParser \<Rightarrow> string \<Rightarrow> string \<Rightarrow> 'p AimlEngine
     \<Rightarrow> error + string \<times> MatchList \<times> 'p AimlEngine" where
  "getResponse P inp target E =
     (case getAllResponses P inp target [] E of
        (responses, allMatches, E') \<Rightarrow>
          if allMatches \<noteq> []
          then (if responses = [] then Inl AssertionFailed
                else Inr (hd responses, [hd allMatches], E'))
          else Inr ('''', [], E'))"

definition getResponse_any ::
  "'p AIMLParser \<Rightarrow> string \<Rightarrow> 'p AimlEngine \<Rightarrow> error + string \<times> MatchList \<times> 'p AimlEngine" where
  "getResponse_any P inp E = getResponse P inp ANY_USER E"

subsection \<open>Properties of the engine\<close>

text \<open>
  \<open>QVariant\<close>, with the kinds of value that the engine's property is set to and
  \<open>toBool\<close> on them: an invalid variant is false, a number is true when it is not zero.
\<close>

datatype QVariant = QVariant_Invalid | QVariant_Bool bool | QVariant_Int int

fun toBool :: "QVariant \<Rightarrow> bool" where
  "toBool QVariant_Invalid = False"
| "toBool (QVariant_Bool b) = b"
| "toBool (QVariant_Int i) = (i \<noteq> 0)"

text \<open>
  Modelled from the spec: the macro \<open>NLP_PROP_PREFER_CUR_TOPIC\<close> of
  nlp-engine/nlpproperties.h, which is not among the sources; the specification names the
  property "prefer-current-topic".
\<close>

definition NLP_PROP_PREFER_CUR_TOPIC :: string where
  "NLP_PROP_PREFER_CUR_TOPIC = ''prefer-current-topic''"

definition property :: "string \<Rightarrow> 'p AimlEngine \<Rightarrow> QVariant" where
  "property name E =
     (if name = NLP_PROP_PREFER_CUR_TOPIC then QVariant_Bool (m_setTopics E)
      else QVariant_Invalid)"

definition setProperty :: "string \<Rightarrow> QVariant \<Rightarrow> 'p AimlEngine \<Rightarrow> 'p AimlEngine" where
  "setProperty name v E =
     (if name = NLP_PROP_PREFER_CUR_TOPIC
      then (let E1 = (if toBool v = True \<and> \<not> m_setTopics E
                      then E\<lparr>m_dirty := True, m_setTopics := True\<rparr> else E)
            in if toBool v = False \<and> m_setTopics E1
               then E1\<lparr>m_dirty := True, m_setTopics := False\<rparr> else E1)
      else E)"

definition clear :: "'p AimlEngine \<Rightarrow> 'p AimlEngine" where
  "clear E = E\<lparr>m_rules := [], m_parsers := Map.empty, m_topics := Map.empty, m_dirty := True\<rparr>"

subsection \<open>Calling the engine again and again\<close>

text \<open>The same request made \<open>n\<close> times, each call on the engine that the call before left.\<close>

fun getResponse_repeat ::
  "'p AIMLParser \<Rightarrow> string \<Rightarrow> string \<Rightarrow> nat \<Rightarrow> 'p AimlEngine
     \<Rightarrow> error + (string \<times> MatchList) list \<times> 'p AimlEngine" where
  "getResponse_repeat P inp target 0 E = Inr ([], E)"
| "getResponse_repeat P inp target (Suc n) E =
     (case getResponse P inp target E of
        Inl e \<Rightarrow> Inl e
      | Inr (out, ms, E') \<Rightarrow>
          (case getResponse_repeat P inp target n E' of
             Inl e \<Rightarrow> Inl e
           | Inr (outs, E'') \<Rightarrow> Inr ((out, ms) # outs, E'')))"


subsection \<open>The pattern index as the specification describes it\<close>

text \<open>
  The specification's index builder: a rule contributes, for every input number \<open>k\<close>, its
  \<open>k\<close>-th input under the key \<open>getCategoryId (rule_id rule) k\<close>; a partition is what its
  rules contribute, in their order. These definitions follow the specification and are
  compared with \<open>buildAiml\<close> below.
\<close>

definition index_entry :: "'p AimlEngine \<Rightarrow> Rule \<Rightarrow> nat \<Rightarrow> aiml" where
  "index_entry E rule k =
     (let topic = escape (remove (CHR 0x22) (rule_topic rule));
          cat = \<lparr>cat_id = getCategoryId (rule_id rule) (of_nat k),
                 cat_pattern = escape (normalize_input E (trimmed (rule_input rule ! k))),
                 cat_topic = topic,
                 cat_template = escape (buildAimlRandOutput (rule_output rule))\<rparr>
      in if m_setTopics E then [Topic topic cat, Topic '''' cat] else [Category cat])"

definition index_of_rule :: "'p AimlEngine \<Rightarrow> Rule \<Rightarrow> aiml" where
  "index_of_rule E rule = concat (map (index_entry E rule) [0 ..< length (rule_input rule)])"

definition index_of_rules :: "'p AimlEngine \<Rightarrow> Rule list \<Rightarrow> aiml" where
  "index_of_rules E rules = concat (map (index_of_rule E) rules)"

subsection \<open>The loop guard\<close>

text \<open>
  Modelled from the spec: the Loop Guard. No source file re-submits a response as input;
  the engine whose test is testInfiniteLoopDetection (nlp-engine/cb2engine.cpp) is not
  among the sources. The specification: a redirect rule's output is re-submitted as the
  next input; the chain of re-submissions is bounded by a fixed maximum depth; a chain
  that does not reach a non-redirecting output within the bound makes the original input
  unmatched, with empty output and empty match list. One matching pass is the parameter
  \<open>match1\<close>, the maximum depth the parameter \<open>depth\<close>.
\<close>

datatype pass = NoMatch | Final string "RuleId \<times> cint" | Redirect string

fun resolve :: "(string \<Rightarrow> pass) \<Rightarrow> nat \<Rightarrow> string \<Rightarrow> string \<times> MatchList" where
  "resolve match1 0 inp =
     (case match1 inp of
        NoMatch \<Rightarrow> ('''', [])
      | Final out m \<Rightarrow> (out, [m])
      | Redirect inp' \<Rightarrow> ('''', []))"
| "resolve match1 (Suc depth) inp =
     (case match1 inp of
        NoMatch \<Rightarrow> ('''', [])
      | Final out m \<Rightarrow> (out, [m])
      | Redirect inp' \<Rightarrow> resolve match1 depth inp')"

text \<open>The number of re-submissions that \<open>resolve\<close> makes, and the inputs of the chain.\<close>

fun resubmissions :: "(string \<Rightarrow> pass) \<Rightarrow> nat \<Rightarrow> string \<Rightarrow> nat" where
  "resubmissions match1 0 inp = 0"
| "resubmissions match1 (Suc depth) inp =
     (case match1 inp of
        NoMatch \<Rightarrow> 0
      | Final out m \<Rightarrow> 0
      | Redirect inp' \<Rightarrow> Suc (resubmissions match1 depth inp'))"

fun redirect_chain :: "(string \<Rightarrow> pass) \<Rightarrow> string \<Rightarrow> nat \<Rightarrow> string option" where
  "redirect_chain match1 inp 0 = Some inp"
| "redirect_chain match1 inp (Suc k) =
     (case match1 inp of
        NoMatch \<Rightarrow> None
      | Final out m \<Rightarrow> None
      | Redirect inp' \<Rightarrow> redirect_chain match1 inp' k)"

subsection \<open>A reference parser\<close>

text \<open>
  Modelled from the spec: the pattern backend and the topic it keeps. The parser class
  \<open>AIMLParser\<close> is not among the sources. The specification describes the backend as a
  capability that compiles (key, pattern) pairs into a matcher and returns the best
  matching key, and allows "a simple wildcard matcher"; of the topic it says that a
  matched rule with a non-empty topic overwrites it and that a rule with an empty topic
  leaves it unchanged. This reference parser compares the input with the patterns as they
  are written. A category inside a topic element of the current topic comes first, then
  the categories outside topic elements or inside the element of the empty topic, in the
  order of the document. The answer is the template of the category and its id; the topic
  becomes the topic of the category when that is not empty. Without a matching category
  the answer is empty and the topic stays.
\<close>

record simple_parser =
  sp_aiml :: aiml
  sp_topic :: string

fun elem_category :: "aiml_elem \<Rightarrow> category" where
  "elem_category (Category c) = c"
| "elem_category (Topic name c) = c"

fun matches_in_topic :: "string \<Rightarrow> string \<Rightarrow> aiml_elem \<Rightarrow> bool" where
  "matches_in_topic t inp (Category c) = False"
| "matches_in_topic t inp (Topic name c) = (name = t \<and> cat_pattern c = inp)"

fun matches_default :: "string \<Rightarrow> aiml_elem \<Rightarrow> bool" where
  "matches_default inp (Category c) = (cat_pattern c = inp)"
| "matches_default inp (Topic name c) = (name = '''' \<and> cat_pattern c = inp)"

definition sp_match :: "string \<Rightarrow> simple_parser \<Rightarrow> aiml_elem option" where
  "sp_match inp p =
     (case find (matches_in_topic (sp_topic p) inp) (sp_aiml p) of
        Some e \<Rightarrow> Some e
      | None \<Rightarrow> find (matches_default inp) (sp_aiml p))"

definition sp_getResponse :: "string \<Rightarrow> simple_parser \<Rightarrow> string \<times> long list \<times> simple_parser" where
  "sp_getResponse inp p =
     (case sp_match inp p of
        None \<Rightarrow> ([], [], p)
      | Some e \<Rightarrow>
          (cat_template (elem_category e), [cat_id (elem_category e)],
           p\<lparr>sp_topic := (if cat_topic (elem_category e) = '''' then sp_topic p
                              else cat_topic (elem_category e))\<rparr>))"

definition simple_AIMLParser :: "simple_parser AIMLParser" where
  "simple_AIMLParser =
     \<lparr>parser_new = (\<lambda>doc. \<lparr>sp_aiml = doc, sp_topic = ''''\<rparr>),
      parser_setTopic = (\<lambda>t p. p\<lparr>sp_topic := t\<rparr>),
      parser_getResponse = sp_getResponse,
      parser_topic = sp_topic\<rparr>"

text \<open>
  The rule of the specification's example: id 7, three inputs. The engine of the examples
  below has no-op sanitizers and lemmatizer.
\<close>

definition rule7 :: Rule where
  "rule7 = \<lparr>rule_id = 7, rule_input = [''hello'', ''hi'', ''hey''],
            rule_output = [''Hi there''], rule_target = [], rule_topic = ''''\<rparr>"

definition null_engine :: "simple_parser AimlEngine" where
  "null_engine = AimlEngine_new (\<lambda>x. x) (\<lambda>x. x) (\<lambda>x. x)"

text \<open>More rules for the examples.\<close>

definition rule_error :: Rule where
  "rule_error = \<lparr>rule_id = 3, rule_input = [''oops''], rule_output = [''Internal Error!''],
                 rule_target = [], rule_topic = ''''\<rparr>"

definition rule_sentinel :: Rule where
  "rule_sentinel = \<lparr>rule_id = 9, rule_input = [''ping''], rule_output = [''pong''],
                    rule_target = [''''], rule_topic = ''''\<rparr>"

definition rule_bob :: Rule where
  "rule_bob = \<lparr>rule_id = 5, rule_input = [''hello''], rule_output = [''Hello Bob''],
               rule_target = [''bob''], rule_topic = ''''\<rparr>"


definition rule_sports :: Rule where
  "rule_sports = \<lparr>rule_id = 1, rule_input = [''football''], rule_output = [''I like sports''],
                  rule_target = [], rule_topic = ''sports''\<rparr>"

text \<open>A rule for one partner whose output is the error text, and a rule for everyone.\<close>

definition rule_error_bob :: Rule where
  "rule_error_bob = \<lparr>rule_id = 6, rule_input = [''oops''], rule_output = [''Internal Error!''],
                     rule_target = [''bob''], rule_topic = ''''\<rparr>"

definition rule_fine :: Rule where
  "rule_fine = \<lparr>rule_id = 4, rule_input = [''oops''], rule_output = [''fine''],
                rule_target = [], rule_topic = ''''\<rparr>"

text \<open>A rule without outputs.\<close>

definition rule_silent :: Rule where
  "rule_silent = \<lparr>rule_id = 8, rule_input = [''hush''], rule_output = [],
                  rule_target = [], rule_topic = ''secret''\<rparr>"

text \<open>A matching pass in which A and B redirect to each other and C resolves through D.\<close>

definition ping_pong :: "string \<Rightarrow> pass" where
  "ping_pong inp =
     (if inp = ''A'' then Redirect ''B''
      else if inp = ''B'' then Redirect ''A''
      else if inp = ''C'' then Redirect ''D''
      else if inp = ''D'' then Final ''done'' (4, 0)
      else NoMatch)"

section \<open>Properties\<close>

subsection \<open>Bits of small numbers\<close>

lemma word_high_bits_clear:
  fixes w :: "'a::len word"
  assumes "unat w < 2 ^ n" and "n \<le> m"
  shows "\<not> bit w m"
proof
  assume "bit w m"
  then have "bit (unat w) m" by (simp add: bit_unsigned_iff)
  then have "odd (unat w div 2 ^ m)" by (simp add: bit_iff_odd)
  moreover have "(2::nat) ^ n \<le> 2 ^ m" using assms(2) by simp
  then have "unat w < 2 ^ m" using assms(1) by linarith
  ultimately show False by simp
qed

lemma inputNumber_bits:
  fixes k :: cint
  assumes "k < 4096" and "12 \<le> n"
  shows "\<not> bit k n"
proof -
  have "unat k < 2 ^ 12" using assms(1) by (simp add: word_less_nat_alt)
  then show ?thesis using assms(2) by (rule word_high_bits_clear)
qed

lemma ruleId_bits:
  fixes r :: RuleId
  assumes "r < 2 ^ 51" and "51 \<le> n"
  shows "\<not> bit r n"
proof -
  have "unat r < 2 ^ 51" using assms(1) by (simp add: word_less_nat_alt)
  then show ?thesis using assms(2) by (rule word_high_bits_clear)
qed

lemma mask_0xfff: "(0xfff :: long) = mask 12"
  by (simp add: mask_eq_exp_minus_1)

lemma getInputNumber_getCategoryId:
  assumes "k < 4096"
  shows "getInputNumber (getCategoryId r k) = k"
proof (rule bit_word_eqI)
  fix n assume n: "n < LENGTH(32)"
  have "n < 12" if "bit k n"
    using inputNumber_bits [OF assms, of n] that by (cases "12 \<le> n") auto
  then show "bit (getInputNumber (getCategoryId r k)) n \<longleftrightarrow> bit k n"
    using n
    by (auto simp: getInputNumber_def getCategoryId_def INPUT_NUMBER_BITS_def
        INPUT_NUMBER_MASK_def mask_0xfff bit_simps)
qed

lemma getRuleId_getCategoryId:
  assumes "r < 2 ^ 51" and "k < 4096"
  shows "getRuleId (getCategoryId r k) = r"
proof (rule bit_word_eqI)
  fix n assume n: "n < LENGTH(64)"
  have k: "\<not> bit k m" if "12 \<le> m" for m
    using inputNumber_bits [OF assms(2) that] .
  have r: "\<not> bit r m" if "51 \<le> m" for m
    using ruleId_bits [OF assms(1) that] .
  show "bit (getRuleId (getCategoryId r k)) n \<longleftrightarrow> bit r n"
    using n k [of "12 + n"] k [of 31] k [of "min 31 (12 + n)"] r [of 51] r [of n]
    by (auto simp: getRuleId_def getCategoryId_def INPUT_NUMBER_BITS_def bit_simps)
qed

subsection \<open>One query, two queries\<close>

lemma getAllResponsesWithParser_None:
  "m_parsers E parserName = None \<Longrightarrow>
   getAllResponsesWithParser P normInput target matches parserName E = ([], matches, E)"
  by (simp add: getAllResponsesWithParser_def)

lemma getAllResponsesWithParser_Some:
  assumes "m_parsers E parserName = Some p"
    and "parser_getResponse P normInput (parser_setTopic P (tracked_topic E target) p)
           = (response, categoriesId, p')"
  shows "getAllResponsesWithParser P normInput target matches parserName E =
           (if response \<noteq> '''' \<and> response \<noteq> ''Internal Error!'' \<and> categoriesId \<noteq> []
            then ([response],
                  [(getRuleId (last categoriesId), getInputNumber (last categoriesId))],
                  E\<lparr>m_parsers := (m_parsers E)(parserName \<mapsto> p'),
                    m_topics := (m_topics E)(target \<mapsto> parser_topic P p')\<rparr>)
            else ([], matches,
                  E\<lparr>m_parsers := (m_parsers E)(parserName \<mapsto> p'),
                    m_topics := (m_topics E)(target \<mapsto> parser_topic P p')\<rparr>))"
  using assms by (auto simp: getAllResponsesWithParser_def convert_def Let_def)

lemma getAllResponsesWithParser_shape:
  assumes "getAllResponsesWithParser P normInput target matches parserName E = (rs, ms, E')"
  shows "(rs = [] \<and> ms = matches) \<or>
         (\<exists>p tp response categoriesId p'.
            m_parsers E parserName = Some p \<and> tp = tracked_topic E target \<and>
            parser_getResponse P normInput (parser_setTopic P tp p)
              = (response, categoriesId, p') \<and>
            response \<noteq> '''' \<and> response \<noteq> ''Internal Error!'' \<and> categoriesId \<noteq> [] \<and>
            rs = [response] \<and>
            ms = [(getRuleId (last categoriesId), getInputNumber (last categoriesId))])"
proof (cases "m_parsers E parserName")
  case None
  then show ?thesis using assms by (simp add: getAllResponsesWithParser_None)
next
  case (Some p)
  obtain response categoriesId p' where
    q: "parser_getResponse P normInput (parser_setTopic P (tracked_topic E target) p)
          = (response, categoriesId, p')"
    by (cases "parser_getResponse P normInput (parser_setTopic P (tracked_topic E target) p)")
  show ?thesis
    using assms Some q unfolding getAllResponsesWithParser_Some [OF Some q]
    by (auto split: if_splits)
qed

lemma getAllResponsesWithParser_frame:
  assumes "getAllResponsesWithParser P normInput target matches parserName E = (rs, ms, E')"
  shows "m_rules E' = m_rules E" and "m_dirty E' = m_dirty E"
    and "m_setTopics E' = m_setTopics E" and "m_preSanitizer E' = m_preSanitizer E"
    and "m_lemmatizer E' = m_lemmatizer E" and "m_postSanitizer E' = m_postSanitizer E"
    and "\<And>u. u \<noteq> target \<Longrightarrow> m_topics E' u = m_topics E u"
    and "\<And>n. n \<noteq> parserName \<Longrightarrow> m_parsers E' n = m_parsers E n"
  using assms
  by (auto simp: getAllResponsesWithParser_def Let_def split: option.splits prod.splits if_splits)

lemma getAllResponses_inner_shape:
  assumes "getAllResponses_inner P inp target [] E = (rs, ms, E')"
  shows "(rs = [] \<and> ms = []) \<or>
         (\<exists>parserName p tp response categoriesId p'.
            (parserName = target \<or> parserName = ANY_USER) \<and>
            m_parsers (refreshed P E) parserName = Some p \<and>
            parser_getResponse P (normInput_of (refreshed P E) inp) (parser_setTopic P tp p)
              = (response, categoriesId, p') \<and>
            response \<noteq> '''' \<and> response \<noteq> ''Internal Error!'' \<and> categoriesId \<noteq> [] \<and>
            rs = [response] \<and>
            ms = [(getRuleId (last categoriesId), getInputNumber (last categoriesId))])"
proof -
  define E1 where "E1 = refreshed P E"
  define n where "n = normInput_of E1 inp"
  obtain rs1 ms1 E2 where
    ph1: "getAllResponsesWithParser P n target [] target E1 = (rs1, ms1, E2)"
    by (cases "getAllResponsesWithParser P n target [] target E1")
  note s1 = getAllResponsesWithParser_shape [OF ph1]
  show ?thesis
  proof (cases "rs1 = [] \<and> target \<noteq> ANY_USER")
    case False
    then have "(rs, ms, E') = (rs1, ms1, E2)"
      using assms ph1 by (auto simp: getAllResponses_inner_def Let_def E1_def n_def)
    then show ?thesis using s1 unfolding E1_def n_def by blast
  next
    case True
    then have ms1: "ms1 = []" using s1 by auto
    have ph2: "getAllResponsesWithParser P n target [] ANY_USER E2 = (rs, ms, E')"
      using assms ph1 True ms1 by (auto simp: getAllResponses_inner_def Let_def E1_def n_def)
    have same: "m_parsers E2 ANY_USER = m_parsers E1 ANY_USER"
      using getAllResponsesWithParser_frame(8) [OF ph1, of ANY_USER] True by auto
    show ?thesis
      using getAllResponsesWithParser_shape [OF ph2] same unfolding E1_def n_def by metis
  qed
qed

subsection \<open>The example engine\<close>

lemmas example_defs = getResponse_def getAllResponses_def getAllResponses_inner_def refreshed_def
  normInput_of_def getAllResponsesWithParser_def refreshAiml_def buildAiml_def buildAiml_rule_def
  setRules_def null_engine_def AimlEngine_new_def rule7_def ANY_USER_def normalize_input_def
  escape_def
  remove_def trimmed_def isSpace_def buildAimlRandOutput_def simple_AIMLParser_def sp_getResponse_def
  sp_match_def tracked_topic_def convert_def getCategoryId_def getRuleId_def getInputNumber_def
  INPUT_NUMBER_BITS_def INPUT_NUMBER_MASK_def Let_def

lemma example_hi:
  "\<exists>E'. getResponse simple_AIMLParser ''hi'' ANY_USER (setRules [rule7] null_engine)
     = Inr (''Hi there'', [(7, 1)], E')"
  by (simp add: example_defs)


subsection \<open>Match identity\<close>

text \<open>
  C1, as the specification states it: for every rule id \<open>r\<close> and every input number \<open>k\<close>,
  \<open>getRuleId\<close> and \<open>getInputNumber\<close> recover \<open>r\<close> and \<open>k\<close> from \<open>getCategoryId r k\<close>. The
  packed number has 12 bits for the input number and the \<open>long\<close> is shifted as a signed
  number: input number 4096 of rule 0 is read back as input 0 of rule 1, and the rule id
  \<open>2^51\<close> comes back with its upper bits set.
\<close>

theorem match_identity_counterexample:
  "getRuleId (getCategoryId 0 4096) \<noteq> 0 \<and>
   getInputNumber (getCategoryId 0 4096) \<noteq> 4096 \<and>
   getRuleId (getCategoryId (2 ^ 51) 0) \<noteq> 2 ^ 51"
  by (simp add: getRuleId_def getCategoryId_def getInputNumber_def INPUT_NUMBER_BITS_def
      INPUT_NUMBER_MASK_def)


text \<open>
  C1, amended: for every rule id below \<open>2^51\<close> and every input number from 0 to 4095,
  \<open>getRuleId\<close> and \<open>getInputNumber\<close> recover the rule id and the input number from
  \<open>getCategoryId\<close>; and when \<open>getResponse\<close> returns a match, its match list has exactly one
  pair, the response is the answer of the parser of the target or of \<open>ANY_USER\<close>, and the
  pair is \<open>(r, k)\<close> when the last category id of that answer is \<open>getCategoryId r k\<close>.
\<close>

theorem match_identity:
  assumes "r < 2 ^ 51" and "k < 4096"
  shows "getRuleId (getCategoryId r k) = r \<and>
         getInputNumber (getCategoryId r k) = k \<and>
         (getResponse P inp target E = Inr (out, ms, E') \<and> ms \<noteq> [] \<longrightarrow>
            (\<exists>parserName p tp categoriesId p'.
               (parserName = target \<or> parserName = ANY_USER) \<and>
               m_parsers (refreshed P E) parserName = Some p \<and>
               parser_getResponse P (normInput_of (refreshed P E) inp) (parser_setTopic P tp p)
                 = (out, categoriesId, p') \<and>
               categoriesId \<noteq> [] \<and> length ms = 1 \<and>
               (last categoriesId = getCategoryId r k \<longrightarrow> ms = [(r, k)])))"
proof (intro conjI impI)
  show rt1: "getRuleId (getCategoryId r k) = r"
    using assms by (rule getRuleId_getCategoryId)
  show rt2: "getInputNumber (getCategoryId r k) = k"
    using assms(2) by (rule getInputNumber_getCategoryId)
  assume a: "getResponse P inp target E = Inr (out, ms, E') \<and> ms \<noteq> []"
  obtain rs ams E2 where
    inner: "getAllResponses_inner P inp target [] E = (rs, ams, E2)"
    by (cases "getAllResponses_inner P inp target [] E")
  from a inner have ams: "ams \<noteq> []" and rs: "rs \<noteq> []"
    and out: "out = hd rs" and ms: "ms = [hd ams]"
    by (auto simp: getResponse_def getAllResponses_def split: if_splits)
  from getAllResponses_inner_shape [OF inner] ams
  have "\<exists>parserName p tp response categoriesId p'.
       (parserName = target \<or> parserName = ANY_USER) \<and>
       m_parsers (refreshed P E) parserName = Some p \<and>
       parser_getResponse P (normInput_of (refreshed P E) inp) (parser_setTopic P tp p)
          = (response, categoriesId, p') \<and>
       categoriesId \<noteq> [] \<and> rs = [response] \<and>
       ams = [(getRuleId (last categoriesId), getInputNumber (last categoriesId))]"
    by blast
  then obtain parserName p tp response categoriesId p' where
    q: "parserName = target \<or> parserName = ANY_USER"
       "m_parsers (refreshed P E) parserName = Some p"
       "parser_getResponse P (normInput_of (refreshed P E) inp) (parser_setTopic P tp p)
          = (response, categoriesId, p')"
       "categoriesId \<noteq> []" "rs = [response]"
       "ams = [(getRuleId (last categoriesId), getInputNumber (last categoriesId))]"
    by blast
  have "last categoriesId = getCategoryId r k \<longrightarrow> ms = [(r, k)]"
    using ms q(6) rt1 rt2 by simp
  moreover have "length ms = 1" using ms by simp
  moreover have "response = out" using out q(5) by simp
  ultimately show "\<exists>parserName p tp categoriesId p'.
       (parserName = target \<or> parserName = ANY_USER) \<and>
       m_parsers (refreshed P E) parserName = Some p \<and>
       parser_getResponse P (normInput_of (refreshed P E) inp) (parser_setTopic P tp p)
         = (out, categoriesId, p') \<and>
       categoriesId \<noteq> [] \<and> length ms = 1 \<and>
       (last categoriesId = getCategoryId r k \<longrightarrow> ms = [(r, k)])"
    using q(1-4) by blast
qed


theorem match_identity_witness:
  "(7 :: RuleId) < 2 ^ 51 \<and> (1 :: cint) < 4096 \<and>
   getRuleId (getCategoryId 7 1) = 7 \<and> getInputNumber (getCategoryId 7 1) = 1 \<and>
   (\<exists>E'. getResponse simple_AIMLParser ''hi'' ANY_USER (setRules [rule7] null_engine)
      = Inr (''Hi there'', [(7, 1)], E'))"
proof -
  have r: "(7 :: RuleId) < 2 ^ 51" and k: "(1 :: cint) < 4096" by simp_all
  from match_identity [OF r k]
  have "getRuleId (getCategoryId 7 1) = 7 \<and> getInputNumber (getCategoryId 7 1) = 1"
    by blast
  then show ?thesis using r k example_hi by blast
qed


subsection \<open>Output and match list\<close>

text \<open>
  C10: \<open>getResponse\<close> returns a non-empty output exactly when its match list is not empty,
  and then the list has one element; the responses gathered for it are not empty when
  the matches gathered are not, so the assertion of \<open>getResponse\<close> does not fail.
\<close>

theorem getResponse_output_iff_match:
  "\<exists>out ms E'. getResponse P inp target E = Inr (out, ms, E') \<and>
     (out \<noteq> '''' \<longleftrightarrow> ms \<noteq> []) \<and> (ms \<noteq> [] \<longrightarrow> length ms = 1) \<and>
     (case getAllResponses P inp target [] E of
        (responses, allMatches, E2) \<Rightarrow> allMatches \<noteq> [] \<longrightarrow> responses \<noteq> [])"
proof -
  obtain rs ams E2 where
    inner: "getAllResponses_inner P inp target [] E = (rs, ams, E2)"
    by (cases "getAllResponses_inner P inp target [] E")
  from getAllResponses_inner_shape [OF inner]
  have "(rs = [] \<and> ams = []) \<or> (\<exists>response m. response \<noteq> '''' \<and> rs = [response] \<and> ams = [m])"
    by blast
  then show ?thesis
    using inner by (auto simp: getResponse_def getAllResponses_def)
qed


theorem getResponse_output_iff_match_witness:
  "\<exists>out ms E'. getResponse simple_AIMLParser ''hi'' ANY_USER (setRules [rule7] null_engine)
       = Inr (out, ms, E') \<and> out = ''Hi there'' \<and> ms = [(7, 1)] \<and>
     (out \<noteq> '''' \<longleftrightarrow> ms \<noteq> []) \<and> (ms \<noteq> [] \<longrightarrow> length ms = 1)"
  using getResponse_output_iff_match
    [of simple_AIMLParser "''hi''" ANY_USER "setRules [rule7] null_engine"] example_hi
  by auto

subsection \<open>Responses that do not count\<close>

lemma getAllResponsesWithParser_discard:
  assumes "\<And>p. m_parsers E parserName = Some p \<Longrightarrow>
             (case parser_getResponse P normInput (parser_setTopic P (tracked_topic E target) p) of
                (response, categoriesId, p') \<Rightarrow>
                  response = '''' \<or> response = ''Internal Error!'' \<or> categoriesId = [])"
  shows "\<exists>E'. getAllResponsesWithParser P normInput target matches parserName E
           = ([], matches, E')"
proof (cases "m_parsers E parserName")
  case None
  then show ?thesis by (simp add: getAllResponsesWithParser_None)
next
  case (Some p)
  obtain response categoriesId p' where
    q: "parser_getResponse P normInput (parser_setTopic P (tracked_topic E target) p)
          = (response, categoriesId, p')"
    by (cases "parser_getResponse P normInput (parser_setTopic P (tracked_topic E target) p)")
  have "response = '''' \<or> response = ''Internal Error!'' \<or> categoriesId = []"
    using assms [OF Some] q by simp
  then show ?thesis
    unfolding getAllResponsesWithParser_Some [OF Some q] by auto
qed

lemma getAllResponsesWithParser_parsers:
  assumes "getAllResponsesWithParser P normInput target matches parserName E = (rs, ms, E')"
    and "m_parsers E' n = Some p'"
  shows "(m_parsers E n = Some p') \<or>
         (n = parserName \<and>
          (\<exists>p. m_parsers E n = Some p \<and>
             p' = snd (snd (parser_getResponse P normInput
                              (parser_setTopic P (tracked_topic E target) p)))))"
  using assms
  by (auto simp: getAllResponsesWithParser_def Let_def
      split: option.splits prod.splits if_splits)

lemma getAllResponses_inner_discard:
  assumes "\<And>parserName p tp. parserName = target \<or> parserName = ANY_USER \<Longrightarrow>
             m_parsers (refreshed P E) parserName = Some p \<Longrightarrow>
             (case parser_getResponse P (normInput_of (refreshed P E) inp)
                     (parser_setTopic P tp p) of
                (response, categoriesId, p') \<Rightarrow>
                  response = '''' \<or> response = ''Internal Error!'' \<or> categoriesId = [])"
  shows "\<exists>E'. getAllResponses_inner P inp target [] E = ([], [], E')"
proof -
  define E1 where "E1 = refreshed P E"
  define n where "n = normInput_of E1 inp"
  have "\<exists>E2. getAllResponsesWithParser P n target [] target E1 = ([], [], E2)"
  proof (rule getAllResponsesWithParser_discard)
    fix p assume "m_parsers E1 target = Some p"
    then show "case parser_getResponse P n (parser_setTopic P (tracked_topic E1 target) p) of
                 (response, categoriesId, p') \<Rightarrow>
                   response = '''' \<or> response = ''Internal Error!'' \<or> categoriesId = []"
      using assms [of target p "tracked_topic E1 target"] by (simp add: E1_def n_def)
  qed
  then obtain E2 where
    ph1: "getAllResponsesWithParser P n target [] target E1 = ([], [], E2)" ..
  show ?thesis
  proof (cases "target = ANY_USER")
    case True
    then show ?thesis
      using ph1 by (simp add: getAllResponses_inner_def Let_def E1_def n_def)
  next
    case False
    have same: "m_parsers E2 ANY_USER = m_parsers E1 ANY_USER"
      using getAllResponsesWithParser_frame(8) [OF ph1, of ANY_USER] False by auto
    have "\<exists>E'. getAllResponsesWithParser P n target [] ANY_USER E2 = ([], [], E')"
    proof (rule getAllResponsesWithParser_discard)
      fix p assume "m_parsers E2 ANY_USER = Some p"
      then show "case parser_getResponse P n (parser_setTopic P (tracked_topic E2 target) p) of
                   (response, categoriesId, p') \<Rightarrow>
                     response = '''' \<or> response = ''Internal Error!'' \<or> categoriesId = []"
        using assms [of ANY_USER p "tracked_topic E2 target"] same by (simp add: E1_def n_def)
    qed
    then show ?thesis
      using ph1 False by (simp add: getAllResponses_inner_def Let_def E1_def n_def)
  qed
qed

lemma refreshed_fields [simp]:
  "m_dirty (refreshed P E) = False"
  "m_rules (refreshed P E) = m_rules E"
  "m_topics (refreshed P E) = m_topics E"
  "m_setTopics (refreshed P E) = m_setTopics E"
  "m_preSanitizer (refreshed P E) = m_preSanitizer E"
  "m_lemmatizer (refreshed P E) = m_lemmatizer E"
  "m_postSanitizer (refreshed P E) = m_postSanitizer E"
  by (simp_all add: refreshed_def refreshAiml_def)

lemma refreshed_clean: "\<not> m_dirty E \<Longrightarrow> refreshed P E = E"
  by (simp add: refreshed_def)

lemma normInput_of_cong:
  assumes "m_preSanitizer E' = m_preSanitizer E" and "m_lemmatizer E' = m_lemmatizer E"
    and "m_postSanitizer E' = m_postSanitizer E"
  shows "normInput_of E' inp = normInput_of E inp"
  using assms by (simp add: normInput_of_def normalize_input_def)

lemma query_without_categories:
  assumes inv: "\<forall>p tp. I p \<longrightarrow>
                  (case parser_getResponse P n (parser_setTopic P tp p) of
                     (response, categoriesId, p') \<Rightarrow> categoriesId = [] \<and> I p')"
    and I0: "\<forall>name p. name = target \<or> name = ANY_USER \<longrightarrow> m_parsers E name = Some p \<longrightarrow> I p"
    and name: "parserName = target \<or> parserName = ANY_USER"
  shows "\<exists>E'. getAllResponsesWithParser P n target ms parserName E = ([], ms, E') \<and>
           (\<forall>name p. name = target \<or> name = ANY_USER \<longrightarrow> m_parsers E' name = Some p \<longrightarrow> I p)"
proof -
  have "\<exists>E'. getAllResponsesWithParser P n target ms parserName E = ([], ms, E')"
  proof (rule getAllResponsesWithParser_discard)
    fix p assume "m_parsers E parserName = Some p"
    then have "I p" using I0 name by blast
    from inv [rule_format, OF this, of "tracked_topic E target"]
    show "case parser_getResponse P n (parser_setTopic P (tracked_topic E target) p) of
            (response, categoriesId, p') \<Rightarrow>
              response = '''' \<or> response = ''Internal Error!'' \<or> categoriesId = []"
      by (auto split: prod.splits)
  qed
  then obtain E' where
    q: "getAllResponsesWithParser P n target ms parserName E = ([], ms, E')" ..
  have "I p'" if nm: "name = target \<or> name = ANY_USER" and p': "m_parsers E' name = Some p'"
    for name p'
  proof -
    from getAllResponsesWithParser_parsers [OF q p']
    consider "m_parsers E name = Some p'"
      | p where "m_parsers E name = Some p"
          "p' = snd (snd (parser_getResponse P n (parser_setTopic P (tracked_topic E target) p)))"
      by blast
    then show ?thesis
    proof cases
      case 1
      then show ?thesis using I0 nm by blast
    next
      case 2
      then have "I p" using I0 nm by blast
      from inv [rule_format, OF this, of "tracked_topic E target"] 2(2)
      show ?thesis by (simp split: prod.splits)
    qed
  qed
  then show ?thesis using q by blast
qed

lemma getResponse_without_categories:
  assumes inv: "\<forall>p tp. I p \<longrightarrow>
                  (case parser_getResponse P (normInput_of (refreshed P E) inp)
                          (parser_setTopic P tp p) of
                     (response, categoriesId, p') \<Rightarrow> categoriesId = [] \<and> I p')"
    and I0: "\<forall>name p. name = target \<or> name = ANY_USER \<longrightarrow>
               m_parsers (refreshed P E) name = Some p \<longrightarrow> I p"
  shows "\<exists>E'. getResponse P inp target E = Inr ('''', [], E') \<and>
           refreshed P E' = E' \<and>
           normInput_of E' inp = normInput_of (refreshed P E) inp \<and>
           (\<forall>name p. name = target \<or> name = ANY_USER \<longrightarrow> m_parsers E' name = Some p \<longrightarrow> I p)"
proof -
  define E1 where "E1 = refreshed P E"
  define n where "n = normInput_of E1 inp"
  note inv' = inv [folded E1_def, folded n_def]
  note I0' = I0 [folded E1_def]
  have "target = target \<or> target = ANY_USER" by simp
  from query_without_categories [OF inv' I0' this, of "[]"]
  obtain E2 where
    ph1: "getAllResponsesWithParser P n target [] target E1 = ([], [], E2)"
    and I2: "\<forall>name p. name = target \<or> name = ANY_USER \<longrightarrow> m_parsers E2 name = Some p \<longrightarrow> I p"
    by (elim exE conjE)
  have "ANY_USER = target \<or> ANY_USER = ANY_USER" by simp
  from query_without_categories [OF inv' I2 this, of "[]"]
  obtain E3 where
    ph2: "getAllResponsesWithParser P n target [] ANY_USER E2 = ([], [], E3)"
    and I3: "\<forall>name p. name = target \<or> name = ANY_USER \<longrightarrow> m_parsers E3 name = Some p \<longrightarrow> I p"
    by (elim exE conjE)
  define E' where "E' = (if target \<noteq> ANY_USER then E3 else E2)"
  have inner: "getAllResponses_inner P inp target [] E = ([], [], E')"
    using ph1 ph2 by (simp add: getAllResponses_inner_def Let_def E1_def n_def E'_def)
  have f2: "m_dirty E2 = False" "m_preSanitizer E2 = m_preSanitizer E1"
    "m_lemmatizer E2 = m_lemmatizer E1" "m_postSanitizer E2 = m_postSanitizer E1"
    using getAllResponsesWithParser_frame [OF ph1] by (simp_all add: E1_def)
  have f3: "m_dirty E3 = False" "m_preSanitizer E3 = m_preSanitizer E1"
    "m_lemmatizer E3 = m_lemmatizer E1" "m_postSanitizer E3 = m_postSanitizer E1"
    using getAllResponsesWithParser_frame [OF ph2] f2 by simp_all
  have f: "m_dirty E' = False" "m_preSanitizer E' = m_preSanitizer E1"
    "m_lemmatizer E' = m_lemmatizer E1" "m_postSanitizer E' = m_postSanitizer E1"
    using f2 f3 by (simp_all add: E'_def)
  have r1: "getResponse P inp target E = Inr ('''', [], E')"
    using inner by (simp add: getResponse_def getAllResponses_def)
  have r2: "refreshed P E' = E'" using f(1) by (simp add: refreshed_clean)
  have r3: "normInput_of E' inp = normInput_of (refreshed P E) inp"
    unfolding E1_def [symmetric] using f(2-4) by (rule normInput_of_cong)
  have r4: "\<forall>name p. name = target \<or> name = ANY_USER \<longrightarrow> m_parsers E' name = Some p \<longrightarrow> I p"
    using I2 I3 by (simp add: E'_def)
  show ?thesis
    by (rule exI [of _ E']) (intro conjI r1 r2 r3 r4)
qed

lemma matches_in_topic_pattern:
  "matches_in_topic t inp e \<Longrightarrow> cat_pattern (elem_category e) = inp"
  by (cases e) simp_all

lemma matches_default_pattern:
  "matches_default inp e \<Longrightarrow> cat_pattern (elem_category e) = inp"
  by (cases e) simp_all

lemma sp_getResponse_no_pattern:
  assumes "inp \<notin> (\<lambda>e. cat_pattern (elem_category e)) ` set (sp_aiml p)"
  shows "sp_getResponse inp p = ([], [], p)"
proof -
  have "find (matches_in_topic (sp_topic p) inp) (sp_aiml p) = None"
    using assms matches_in_topic_pattern by (fastforce simp: find_None_iff)
  moreover have "find (matches_default inp) (sp_aiml p) = None"
    using assms matches_default_pattern by (fastforce simp: find_None_iff)
  ultimately show ?thesis by (simp add: sp_getResponse_def sp_match_def)
qed

lemma example_rule7_parsers:
  "m_parsers (refreshed simple_AIMLParser (setRules [rule7] null_engine)) name =
     (if name = ANY_USER
      then Some \<lparr>sp_aiml =
                   [Category \<lparr>cat_id = 28672, cat_pattern = ''hello'', cat_topic = '''',
                              cat_template = ''Hi there''\<rparr>,
                    Category \<lparr>cat_id = 28673, cat_pattern = ''hi'', cat_topic = '''',
                              cat_template = ''Hi there''\<rparr>,
                    Category \<lparr>cat_id = 28674, cat_pattern = ''hey'', cat_topic = '''',
                              cat_template = ''Hi there''\<rparr>],
                 sp_topic = ''''\<rparr>
      else None)"
  by (simp add: example_defs)

lemma example_rule7_norm:
  "normInput_of (refreshed simple_AIMLParser (setRules [rule7] null_engine)) inp
     = remove (CHR ''&'') inp"
  by (simp add: normInput_of_def normalize_input_def setRules_def null_engine_def AimlEngine_new_def)

text \<open>
  C2: when the normalized input matches no pattern of the parser of the target nor of the
  parser of \<open>ANY_USER\<close> (whatever topic the parser is given, it returns no category id, and
  this stays so after the query: the invariant \<open>I\<close>), \<open>getResponse\<close> returns the empty
  string and the empty match list, and so does every one of \<open>k\<close> calls in a row.
\<close>

theorem no_match_contract:
  assumes inv: "\<forall>p tp. I p \<longrightarrow>
                  (case parser_getResponse P (normInput_of (refreshed P E) inp)
                          (parser_setTopic P tp p) of
                     (response, categoriesId, p') \<Rightarrow> categoriesId = [] \<and> I p')"
    and I0: "\<forall>name p. name = target \<or> name = ANY_USER \<longrightarrow>
               m_parsers (refreshed P E) name = Some p \<longrightarrow> I p"
  shows "(\<exists>E'. getResponse P inp target E = Inr ('''', [], E')) \<and>
         (\<exists>E'. getResponse_repeat P inp target k E = Inr (replicate k ('''', []), E'))"
proof
  from getResponse_without_categories [OF inv I0]
  obtain E' where "getResponse P inp target E = Inr ('''', [], E')"
    by (elim exE conjE)
  then show "\<exists>E'. getResponse P inp target E = Inr ('''', [], E')" ..
  show "\<exists>E'. getResponse_repeat P inp target k E = Inr (replicate k ('''', []), E')"
    using inv I0
  proof (induction k arbitrary: E)
    case 0
    then show ?case by simp
  next
    case (Suc k)
    from getResponse_without_categories [OF Suc.prems]
    obtain E' where
      r: "getResponse P inp target E = Inr ('''', [], E')"
      and c: "refreshed P E' = E'"
      and n: "normInput_of E' inp = normInput_of (refreshed P E) inp"
      and I': "\<forall>name p. name = target \<or> name = ANY_USER \<longrightarrow> m_parsers E' name = Some p \<longrightarrow> I p"
      by (elim exE conjE)
    have n': "normInput_of (refreshed P E') inp = normInput_of (refreshed P E) inp"
      by (simp only: c n)
    have "\<exists>E''. getResponse_repeat P inp target k E' = Inr (replicate k ('''', []), E'')"
    proof (rule Suc.IH)
      show "\<forall>p tp. I p \<longrightarrow>
              (case parser_getResponse P (normInput_of (refreshed P E') inp)
                      (parser_setTopic P tp p) of
                 (response, categoriesId, p') \<Rightarrow> categoriesId = [] \<and> I p')"
        unfolding n' by (rule Suc.prems(1))
      show "\<forall>name p. name = target \<or> name = ANY_USER \<longrightarrow>
              m_parsers (refreshed P E') name = Some p \<longrightarrow> I p"
        unfolding c by (rule I')
    qed
    then obtain E'' where
      "getResponse_repeat P inp target k E' = Inr (replicate k ('''', []), E'')" ..
    then have "getResponse_repeat P inp target (Suc k) E
                 = Inr (replicate (Suc k) ('''', []), E'')"
      using r by simp
    then show ?case ..
  qed
qed

theorem no_match_contract_witness:
  "\<exists>E'. getResponse_repeat simple_AIMLParser ''what'' ''bob'' (Suc (Suc (Suc 0)))
           (setRules [rule7] null_engine)
     = Inr ([('''', []), ('''', []), ('''', [])], E')"
proof -
  let ?E = "setRules [rule7] null_engine"
  let ?I = "\<lambda>p. ''what'' \<notin> (\<lambda>e. cat_pattern (elem_category e)) ` set (sp_aiml p)"
  have inv: "\<forall>p tp. ?I p \<longrightarrow>
               (case parser_getResponse simple_AIMLParser
                       (normInput_of (refreshed simple_AIMLParser ?E) ''what'')
                       (parser_setTopic simple_AIMLParser tp p) of
                  (response, categoriesId, p') \<Rightarrow> categoriesId = [] \<and> ?I p')"
  proof (intro allI impI)
    fix p :: simple_parser and tp
    assume "?I p"
    then have "?I (p\<lparr>sp_topic := tp\<rparr>)" by simp
    from sp_getResponse_no_pattern [OF this]
    show "case parser_getResponse simple_AIMLParser
                 (normInput_of (refreshed simple_AIMLParser ?E) ''what'')
                 (parser_setTopic simple_AIMLParser tp p) of
            (response, categoriesId, p') \<Rightarrow> categoriesId = [] \<and> ?I p'"
      unfolding example_rule7_norm using \<open>?I p\<close>
      by (simp add: remove_def simple_AIMLParser_def)
  qed
  have I0: "\<forall>name p. name = ''bob'' \<or> name = ANY_USER \<longrightarrow>
              m_parsers (refreshed simple_AIMLParser ?E) name = Some p \<longrightarrow> ?I p"
    unfolding example_rule7_parsers by (auto split: if_splits)
  from no_match_contract [where I = ?I and k = "Suc (Suc (Suc 0))", OF inv I0]
  show ?thesis by simp
qed

lemma example_errors_parsers:
  "m_parsers (refreshed simple_AIMLParser (setRules [rule_error_bob, rule_error] null_engine))
     ''bob'' =
     Some \<lparr>sp_aiml = [Category \<lparr>cat_id = 24576, cat_pattern = ''oops'', cat_topic = '''',
                                 cat_template = ''Internal Error!''\<rparr>],
           sp_topic = ''''\<rparr>"
  "m_parsers (refreshed simple_AIMLParser (setRules [rule_error_bob, rule_error] null_engine))
     ANY_USER =
     Some \<lparr>sp_aiml = [Category \<lparr>cat_id = 12288, cat_pattern = ''oops'', cat_topic = '''',
                                 cat_template = ''Internal Error!''\<rparr>],
           sp_topic = ''''\<rparr>"
  by (simp_all add: example_defs rule_error_def rule_error_bob_def)

lemma example_errors_norm:
  "normInput_of (refreshed simple_AIMLParser (setRules [rule_error_bob, rule_error] null_engine))
     inp = remove (CHR ''&'') inp"
  by (simp add: normInput_of_def normalize_input_def setRules_def null_engine_def
      AimlEngine_new_def)

text \<open>
  C9, as the specification states it: when the response of the backend is empty or is
  \<open>"Internal Error!"\<close>, \<open>getResponse\<close> returns the empty string and the empty match list.
  The parser of a named target answers \<open>"Internal Error!"\<close> for a matched category; the
  engine drops that answer, asks the parser of \<open>ANY_USER\<close>, and \<open>getResponse\<close> returns the
  response and the match of the rule for everyone.
\<close>

theorem invalid_response_discarded_counterexample:
  "(case m_parsers (refreshed simple_AIMLParser (setRules [rule_error_bob, rule_fine] null_engine))
          ''bob'' of
      None \<Rightarrow> False
    | Some p \<Rightarrow>
        fst (parser_getResponse simple_AIMLParser ''oops''
               (parser_setTopic simple_AIMLParser '''' p)) = ''Internal Error!'' \<and>
        fst (snd (parser_getResponse simple_AIMLParser ''oops''
               (parser_setTopic simple_AIMLParser '''' p))) = [getCategoryId 6 0]) \<and>
   (case getResponse simple_AIMLParser ''oops'' ''bob''
           (setRules [rule_error_bob, rule_fine] null_engine) of
      Inl e \<Rightarrow> False
    | Inr (out, ms, E') \<Rightarrow> out = ''fine'' \<and> ms = [(4, 0)])"
  by (simp add: example_defs rule_error_bob_def rule_fine_def)

text \<open>
  C9, amended: a parser response that is empty or is \<open>"Internal Error!"\<close> is dropped by
  \<open>getAllResponsesWithParser\<close>, which returns no response and leaves the match list, also
  when the parser reports a matched category. When the parser of a named target answers
  so, the result is that of asking the parser of \<open>ANY_USER\<close>. When all the parsers asked
  (of the target, of \<open>ANY_USER\<close>) answer so, \<open>getResponse\<close> returns the empty string and
  the empty match list.
\<close>

theorem invalid_response_discarded:
  "(m_parsers E0 parserName = Some p0 \<and>
      (fst (parser_getResponse P n (parser_setTopic P (tracked_topic E0 target) p0)) = '''' \<or>
       fst (parser_getResponse P n (parser_setTopic P (tracked_topic E0 target) p0))
         = ''Internal Error!'') \<longrightarrow>
      fst (getAllResponsesWithParser P n target matches parserName E0) = [] \<and>
      fst (snd (getAllResponsesWithParser P n target matches parserName E0)) = matches) \<and>
   (target \<noteq> ANY_USER \<and> m_parsers (refreshed P E) target = Some pt \<and>
      (fst (parser_getResponse P (normInput_of (refreshed P E) inp)
              (parser_setTopic P (tracked_topic (refreshed P E) target) pt)) = '''' \<or>
       fst (parser_getResponse P (normInput_of (refreshed P E) inp)
              (parser_setTopic P (tracked_topic (refreshed P E) target) pt))
         = ''Internal Error!'') \<longrightarrow>
      getAllResponses P inp target [] E =
        getAllResponsesWithParser P (normInput_of (refreshed P E) inp) target [] ANY_USER
          (snd (snd (getAllResponsesWithParser P (normInput_of (refreshed P E) inp) target []
                       target (refreshed P E))))) \<and>
   ((\<forall>name p tp. (name = target \<or> name = ANY_USER) \<and>
        m_parsers (refreshed P E) name = Some p \<longrightarrow>
        fst (parser_getResponse P (normInput_of (refreshed P E) inp) (parser_setTopic P tp p)) = '''' \<or>
        fst (parser_getResponse P (normInput_of (refreshed P E) inp) (parser_setTopic P tp p))
          = ''Internal Error!'') \<longrightarrow>
      (\<exists>E'. getResponse P inp target E = Inr ('''', [], E')))"
proof (intro conjI impI)
  assume a: "m_parsers E0 parserName = Some p0 \<and>
      (fst (parser_getResponse P n (parser_setTopic P (tracked_topic E0 target) p0)) = '''' \<or>
       fst (parser_getResponse P n (parser_setTopic P (tracked_topic E0 target) p0))
         = ''Internal Error!'')"
  have "\<exists>E'. getAllResponsesWithParser P n target matches parserName E0 = ([], matches, E')"
  proof (rule getAllResponsesWithParser_discard)
    fix p assume "m_parsers E0 parserName = Some p"
    then have "p = p0" using a by simp
    then show "case parser_getResponse P n (parser_setTopic P (tracked_topic E0 target) p) of
                 (response, categoriesId, p') \<Rightarrow>
                   response = '''' \<or> response = ''Internal Error!'' \<or> categoriesId = []"
      using a by (auto split: prod.splits)
  qed
  then show "fst (getAllResponsesWithParser P n target matches parserName E0) = []"
    and "fst (snd (getAllResponsesWithParser P n target matches parserName E0)) = matches"
    by auto
next
  define E1 where "E1 = refreshed P E"
  define nI where "nI = normInput_of E1 inp"
  assume "target \<noteq> ANY_USER \<and> m_parsers (refreshed P E) target = Some pt \<and>
      (fst (parser_getResponse P (normInput_of (refreshed P E) inp)
              (parser_setTopic P (tracked_topic (refreshed P E) target) pt)) = '''' \<or>
       fst (parser_getResponse P (normInput_of (refreshed P E) inp)
              (parser_setTopic P (tracked_topic (refreshed P E) target) pt))
         = ''Internal Error!'')"
  then have t: "target \<noteq> ANY_USER" and pt: "m_parsers E1 target = Some pt"
    and inv: "fst (parser_getResponse P nI (parser_setTopic P (tracked_topic E1 target) pt)) = '''' \<or>
       fst (parser_getResponse P nI (parser_setTopic P (tracked_topic E1 target) pt))
         = ''Internal Error!''"
    by (simp_all add: E1_def nI_def)
  have "\<exists>E2. getAllResponsesWithParser P nI target [] target E1 = ([], [], E2)"
  proof (rule getAllResponsesWithParser_discard)
    fix p assume "m_parsers E1 target = Some p"
    then have "p = pt" using pt by simp
    then show "case parser_getResponse P nI (parser_setTopic P (tracked_topic E1 target) p) of
                 (response, categoriesId, p') \<Rightarrow>
                   response = '''' \<or> response = ''Internal Error!'' \<or> categoriesId = []"
      using inv by (auto split: prod.splits)
  qed
  then obtain E2 where
    ph1: "getAllResponsesWithParser P nI target [] target E1 = ([], [], E2)" ..
  have "getAllResponses P inp target [] E =
        getAllResponsesWithParser P nI target [] ANY_USER
          (snd (snd (getAllResponsesWithParser P nI target [] target E1)))"
    using ph1 t
    by (simp add: getAllResponses_def getAllResponses_inner_def Let_def E1_def nI_def)
  then show "getAllResponses P inp target [] E =
        getAllResponsesWithParser P (normInput_of (refreshed P E) inp) target [] ANY_USER
          (snd (snd (getAllResponsesWithParser P (normInput_of (refreshed P E) inp) target []
                       target (refreshed P E))))"
    by (simp only: E1_def nI_def)
next
  assume a: "\<forall>name p tp. (name = target \<or> name = ANY_USER) \<and>
        m_parsers (refreshed P E) name = Some p \<longrightarrow>
        fst (parser_getResponse P (normInput_of (refreshed P E) inp) (parser_setTopic P tp p)) = '''' \<or>
        fst (parser_getResponse P (normInput_of (refreshed P E) inp) (parser_setTopic P tp p))
          = ''Internal Error!''"
  have "\<exists>E'. getAllResponses_inner P inp target [] E = ([], [], E')"
  proof (rule getAllResponses_inner_discard)
    fix parserName p tp
    assume "parserName = target \<or> parserName = ANY_USER"
      and "m_parsers (refreshed P E) parserName = Some p"
    with a have "fst (parser_getResponse P (normInput_of (refreshed P E) inp)
                        (parser_setTopic P tp p)) = '''' \<or>
                 fst (parser_getResponse P (normInput_of (refreshed P E) inp)
                        (parser_setTopic P tp p)) = ''Internal Error!''"
      by (rule_tac a [rule_format]) simp
    then show "case parser_getResponse P (normInput_of (refreshed P E) inp)
                      (parser_setTopic P tp p) of
                 (response, categoriesId, p') \<Rightarrow>
                   response = '''' \<or> response = ''Internal Error!'' \<or> categoriesId = []"
      by (auto split: prod.splits)
  qed
  then show "\<exists>E'. getResponse P inp target E = Inr ('''', [], E')"
    by (auto simp: getResponse_def getAllResponses_def)
qed

theorem invalid_response_discarded_witness:
  "(\<exists>E'. getResponse simple_AIMLParser ''oops'' ''bob''
            (setRules [rule_error_bob, rule_error] null_engine)
      = Inr ('''', [], E')) \<and>
   (\<exists>p p'. m_parsers (refreshed simple_AIMLParser
                        (setRules [rule_error_bob, rule_error] null_engine)) ''bob''
            = Some p \<and>
          parser_getResponse simple_AIMLParser ''oops'' (parser_setTopic simple_AIMLParser '''' p)
            = (''Internal Error!'', [getCategoryId 6 0], p'))"
proof
  let ?E = "setRules [rule_error_bob, rule_error] null_engine"
  have "\<forall>name p tp. (name = ''bob'' \<or> name = ANY_USER) \<and>
        m_parsers (refreshed simple_AIMLParser ?E) name = Some p \<longrightarrow>
        fst (parser_getResponse simple_AIMLParser
               (normInput_of (refreshed simple_AIMLParser ?E) ''oops'')
               (parser_setTopic simple_AIMLParser tp p)) = '''' \<or>
        fst (parser_getResponse simple_AIMLParser
               (normInput_of (refreshed simple_AIMLParser ?E) ''oops'')
               (parser_setTopic simple_AIMLParser tp p)) = ''Internal Error!''"
  proof (intro allI impI)
    fix name p tp
    assume "(name = ''bob'' \<or> name = ANY_USER) \<and>
        m_parsers (refreshed simple_AIMLParser ?E) name = Some p"
    then obtain c where p: "p = \<lparr>sp_aiml = [Category \<lparr>cat_id = c, cat_pattern = ''oops'',
                                cat_topic = '''', cat_template = ''Internal Error!''\<rparr>],
                          sp_topic = ''''\<rparr>"
      using example_errors_parsers by auto
    show "fst (parser_getResponse simple_AIMLParser
               (normInput_of (refreshed simple_AIMLParser ?E) ''oops'')
               (parser_setTopic simple_AIMLParser tp p)) = '''' \<or>
        fst (parser_getResponse simple_AIMLParser
               (normInput_of (refreshed simple_AIMLParser ?E) ''oops'')
               (parser_setTopic simple_AIMLParser tp p)) = ''Internal Error!''"
      unfolding example_errors_norm p
      by (simp add: remove_def simple_AIMLParser_def sp_getResponse_def sp_match_def)
  qed
  with invalid_response_discarded
    [where P = simple_AIMLParser and target = "''bob''" and E = ?E and inp = "''oops''"]
  show "\<exists>E'. getResponse simple_AIMLParser ''oops'' ''bob'' ?E = Inr ('''', [], E')"
    by blast
  show "\<exists>p p'. m_parsers (refreshed simple_AIMLParser ?E) ''bob'' = Some p \<and>
          parser_getResponse simple_AIMLParser ''oops'' (parser_setTopic simple_AIMLParser '''' p)
            = (''Internal Error!'', [getCategoryId 6 0], p')"
    unfolding example_errors_parsers
    by (simp add: simple_AIMLParser_def sp_getResponse_def sp_match_def
        getCategoryId_def INPUT_NUMBER_BITS_def)
qed

subsection \<open>The pattern index\<close>

lemma buildAiml_rule_loop_index:
  assumes "drop i (rule_input rule) = inputs"
  shows "buildAiml_rule_loop E rule aiml i inputs =
           aiml @ concat (map (index_entry E rule) [i ..< length (rule_input rule)])"
  using assms
proof (induction inputs arbitrary: aiml i)
  case Nil
  then have "length (rule_input rule) \<le> i" by simp
  then show ?case by simp
next
  case (Cons inp inputs)
  from Cons.prems have i: "i < length (rule_input rule)"
    by (metis drop_all list.distinct(1) not_le)
  from Cons.prems i have nth: "rule_input rule ! i = inp"
    by (metis Cons_nth_drop_Suc list.inject)
  from Cons.prems i have rest: "drop (Suc i) (rule_input rule) = inputs"
    by (metis Cons_nth_drop_Suc list.inject)
  have upt: "[i ..< length (rule_input rule)] = i # [Suc i ..< length (rule_input rule)]"
    using i by (simp add: upt_conv_Cons)
  show ?case
    unfolding upt
    by (simp add: Cons.IH [OF rest] index_entry_def nth Let_def)
qed

lemma buildAiml_rule_index: "buildAiml_rule E aiml rule = aiml @ index_of_rule E rule"
  by (simp add: buildAiml_rule_def index_of_rule_def buildAiml_rule_loop_index)

lemma buildAiml_loop_index:
  "buildAiml_loop E target aiml rules =
     aiml @ index_of_rules E
       (filter (\<lambda>rule. (target = ANY_USER \<and> rule_target rule = []) \<or>
                       target \<in> set (rule_target rule)) rules)"
  by (induction rules arbitrary: aiml) (simp_all add: index_of_rules_def buildAiml_rule_index)

lemma buildAiml_index:
  "buildAiml E target =
     index_of_rules E
       (filter (\<lambda>rule. (target = ANY_USER \<and> rule_target rule = []) \<or>
                       target \<in> set (rule_target rule)) (m_rules E))"
  by (simp add: buildAiml_def buildAiml_loop_index)

lemma refreshAiml_targets_lookup:
  "refreshAiml_targets P E parsers targets t =
     (if parsers t \<noteq> None then parsers t
      else if t \<in> set targets then Some (parser_new P (buildAiml E t))
      else None)"
  by (induction targets arbitrary: parsers) auto

lemma refreshAiml_rules_lookup:
  "refreshAiml_rules P E parsers rules t =
     (if parsers t \<noteq> None then parsers t
      else if t \<in> (\<Union>rule \<in> set rules. set (rule_target rule))
      then Some (parser_new P (buildAiml E t))
      else None)"
  by (induction rules arbitrary: parsers) (auto simp: refreshAiml_targets_lookup)

lemma refreshAiml_lookup:
  "m_parsers (refreshAiml P E) t =
     (if t = ANY_USER \<or> t \<in> (\<Union>rule \<in> set (m_rules E). set (rule_target rule))
      then Some (parser_new P (buildAiml E t))
      else None)"
  by (simp add: refreshAiml_def refreshAiml_rules_lookup)

lemma refreshAiml_dom:
  "dom (m_parsers (refreshAiml P E)) =
     insert ANY_USER (\<Union>rule \<in> set (m_rules E). set (rule_target rule))"
  by (auto simp: dom_def refreshAiml_lookup)

lemma index_entry_keys:
  assumes "e \<in> set (index_entry E rule k)"
  shows "cat_id (elem_category e) = getCategoryId (rule_id rule) (of_nat k) \<and>
         cat_pattern (elem_category e) = escape (normalize_input E (trimmed (rule_input rule ! k)))"
  using assms by (auto simp: index_entry_def Let_def split: if_splits)

lemma index_entry_subset:
  assumes "k < length (rule_input rule)"
  shows "set (index_entry E rule k) \<subseteq> set (index_of_rule E rule)"
  using assms by (auto simp: index_of_rule_def)

text \<open>
  C4, as the specification states it: the partition of \<open>ANY_USER\<close> is built from exactly the
  rules whose target list is empty. A rule whose target list holds the empty string, which
  is \<open>ANY_USER\<close>, has a target and is in that partition all the same.
\<close>

theorem pattern_index_partitions_counterexample:
  "rule_target rule_sentinel \<noteq> [] \<and>
   buildAiml (setRules [rule_sentinel] null_engine) ANY_USER =
     [Category \<lparr>cat_id = getCategoryId 9 0, cat_pattern = ''ping'', cat_topic = '''',
                cat_template = ''pong''\<rparr>] \<and>
   index_of_rules (setRules [rule_sentinel] null_engine)
     (filter (\<lambda>rule. rule_target rule = []) (m_rules (setRules [rule_sentinel] null_engine)))
     = []"
  by (simp add: rule_sentinel_def buildAiml_def buildAiml_rule_def setRules_def null_engine_def
      AimlEngine_new_def ANY_USER_def normalize_input_def escape_def remove_def trimmed_def isSpace_def
      buildAimlRandOutput_def index_of_rules_def Let_def)

text \<open>
  C4, amended: after \<open>refreshAiml\<close> there is one parser for \<open>ANY_USER\<close> and one for every
  target of a rule, each made from the document \<open>buildAiml\<close> of its name; for a target other
  than \<open>ANY_USER\<close> the document is the index of exactly the rules whose targets hold it, for
  \<open>ANY_USER\<close> the index of exactly the rules whose target list is empty or holds the empty
  string; and the index of a rule has, for every input number \<open>k\<close>, an entry whose id is
  \<open>getCategoryId (rule_id rule) k\<close> and whose pattern is the trimmed, normalized and escaped
  \<open>k\<close>-th input.
\<close>

theorem pattern_index_partitions:
  "dom (m_parsers (refreshAiml P E)) =
     insert ANY_USER (\<Union>rule \<in> set (m_rules E). set (rule_target rule)) \<and>
   (t \<in> dom (m_parsers (refreshAiml P E)) \<longrightarrow>
      m_parsers (refreshAiml P E) t = Some (parser_new P (buildAiml E t))) \<and>
   (t \<noteq> ANY_USER \<longrightarrow>
      buildAiml E t =
        index_of_rules E (filter (\<lambda>rule. t \<in> set (rule_target rule)) (m_rules E))) \<and>
   buildAiml E ANY_USER =
     index_of_rules E
       (filter (\<lambda>rule. rule_target rule = [] \<or> ANY_USER \<in> set (rule_target rule)) (m_rules E)) \<and>
   (k < length (rule_input rule) \<longrightarrow>
      set (index_entry E rule k) \<subseteq> set (index_of_rule E rule) \<and>
      index_entry E rule k \<noteq> [] \<and>
      (\<forall>e \<in> set (index_entry E rule k).
         cat_id (elem_category e) = getCategoryId (rule_id rule) (of_nat k) \<and>
         cat_pattern (elem_category e) = escape (normalize_input E (trimmed (rule_input rule ! k)))))"
proof (intro conjI impI)
  show "dom (m_parsers (refreshAiml P E)) =
     insert ANY_USER (\<Union>rule \<in> set (m_rules E). set (rule_target rule))"
    by (rule refreshAiml_dom)
  show "m_parsers (refreshAiml P E) t = Some (parser_new P (buildAiml E t))"
    if "t \<in> dom (m_parsers (refreshAiml P E))"
    using that by (auto simp: refreshAiml_lookup split: if_splits)
  show "buildAiml E t =
        index_of_rules E (filter (\<lambda>rule. t \<in> set (rule_target rule)) (m_rules E))"
    if "t \<noteq> ANY_USER"
    using that by (simp add: buildAiml_index)
  have "(\<lambda>rule. (ANY_USER = ANY_USER \<and> rule_target rule = []) \<or>
                ANY_USER \<in> set (rule_target rule)) =
        (\<lambda>rule. rule_target rule = [] \<or> ANY_USER \<in> set (rule_target rule))"
    by simp
  then show "buildAiml E ANY_USER =
     index_of_rules E
       (filter (\<lambda>rule. rule_target rule = [] \<or> ANY_USER \<in> set (rule_target rule)) (m_rules E))"
    by (simp add: buildAiml_index)
  show "set (index_entry E rule k) \<subseteq> set (index_of_rule E rule)"
    if "k < length (rule_input rule)"
    using that by (rule index_entry_subset)
  show "index_entry E rule k \<noteq> []"
    by (simp add: index_entry_def Let_def)
  show "\<forall>e \<in> set (index_entry E rule k).
         cat_id (elem_category e) = getCategoryId (rule_id rule) (of_nat k) \<and>
         cat_pattern (elem_category e) = escape (normalize_input E (trimmed (rule_input rule ! k)))"
    using index_entry_keys by blast
qed

theorem pattern_index_partitions_witness:
  "dom (m_parsers (refreshAiml simple_AIMLParser (setRules [rule7] null_engine))) = {ANY_USER} \<and>
   m_parsers (refreshAiml simple_AIMLParser (setRules [rule7] null_engine)) ANY_USER =
     Some (parser_new simple_AIMLParser (buildAiml (setRules [rule7] null_engine) ANY_USER)) \<and>
   buildAiml (setRules [rule7] null_engine) ANY_USER =
     index_of_rules (setRules [rule7] null_engine) [rule7] \<and>
   (1 :: nat) < length (rule_input rule7) \<and>
   index_entry (setRules [rule7] null_engine) rule7 1 =
     [Category \<lparr>cat_id = getCategoryId 7 1, cat_pattern = ''hi'', cat_topic = '''',
                cat_template = ''Hi there''\<rparr>]"
proof -
  let ?E = "setRules [rule7] null_engine"
  note inst = pattern_index_partitions
    [where P = simple_AIMLParser and E = ?E and t = ANY_USER and k = 1 and rule = rule7]
  have rules: "m_rules ?E = [rule7]" by (simp add: setRules_def)
  have tg: "rule_target rule7 = []" by (simp add: rule7_def)
  have d: "dom (m_parsers (refreshAiml simple_AIMLParser ?E)) = {ANY_USER}"
    using inst by (simp add: rules tg)
  then have "ANY_USER \<in> dom (m_parsers (refreshAiml simple_AIMLParser ?E))" by simp
  with inst have p: "m_parsers (refreshAiml simple_AIMLParser ?E) ANY_USER =
     Some (parser_new simple_AIMLParser (buildAiml ?E ANY_USER))"
    by blast
  have b: "buildAiml ?E ANY_USER = index_of_rules ?E [rule7]"
    using inst by (simp add: rules tg)
  have k: "(1 :: nat) < length (rule_input rule7)" by (simp add: rule7_def)
  have e: "index_entry ?E rule7 1 =
     [Category \<lparr>cat_id = getCategoryId 7 1, cat_pattern = ''hi'', cat_topic = '''',
                cat_template = ''Hi there''\<rparr>]"
    by (simp add: index_entry_def rule7_def setRules_def null_engine_def AimlEngine_new_def
        normalize_input_def escape_def remove_def trimmed_def isSpace_def buildAimlRandOutput_def Let_def)
  show ?thesis using d p b k e by blast
qed

subsection \<open>Replacing the rules\<close>






lemma getAllResponsesWithParser_dom:
  assumes "getAllResponsesWithParser P n target ms parserName E = (rs, ms', E')"
  shows "dom (m_parsers E') = dom (m_parsers E)"
  using assms
  by (auto simp: getAllResponsesWithParser_def Let_def
      split: option.splits prod.splits if_splits)

lemma getAllResponses_inner_frame:
  assumes "getAllResponses_inner P inp target ms E = (rs, ms', E')"
  shows "m_rules E' = m_rules E" and "m_dirty E' = False"
    and "dom (m_parsers E') = dom (m_parsers (refreshed P E))"
    and "m_setTopics E' = m_setTopics E"
    and "\<And>u. u \<noteq> target \<Longrightarrow> m_topics E' u = m_topics E u"
proof -
  define E1 where "E1 = refreshed P E"
  define n where "n = normInput_of E1 inp"
  obtain rs1 ms1 E2 where
    ph1: "getAllResponsesWithParser P n target ms target E1 = (rs1, ms1, E2)"
    by (cases "getAllResponsesWithParser P n target ms target E1")
  obtain rs2 ms2 E3 where
    ph2: "getAllResponsesWithParser P n target ms1 ANY_USER E2 = (rs2, ms2, E3)"
    by (cases "getAllResponsesWithParser P n target ms1 ANY_USER E2")
  have E': "E' = E2 \<or> E' = E3"
    using assms ph1 ph2
    by (auto simp: getAllResponses_inner_def Let_def E1_def n_def split: if_splits)
  note f1 = getAllResponsesWithParser_frame [OF ph1] getAllResponsesWithParser_dom [OF ph1]
  note f2 = getAllResponsesWithParser_frame [OF ph2] getAllResponsesWithParser_dom [OF ph2]
  show "m_rules E' = m_rules E" using E' f1(1) f2(1) by (auto simp: E1_def)
  show "m_dirty E' = False" using E' f1(2) f2(2) by (auto simp: E1_def)
  show "dom (m_parsers E') = dom (m_parsers (refreshed P E))"
    using E' f1(9) f2(9) by (auto simp: E1_def)
  show "m_setTopics E' = m_setTopics E" using E' f1(3) f2(3) by (auto simp: E1_def)
  show "m_topics E' u = m_topics E u" if "u \<noteq> target" for u
    using E' f1(7) [OF that] f2(7) [OF that] by (auto simp: E1_def)
qed







subsection \<open>The target first, then any user\<close>

text \<open>
  C3: let the parser of the target have been asked first, with the responses \<open>rs1\<close>. When
  it has a response or the target is \<open>ANY_USER\<close>, that is the result, and the parser of
  \<open>ANY_USER\<close> of a named target was not touched. When it has none and the target is not
  \<open>ANY_USER\<close>, the result is that of asking the parser of \<open>ANY_USER\<close>: that parser is asked
  once, and its valid response with its match is what \<open>getResponse\<close> returns.
\<close>

theorem two_phase_target_resolution:
  assumes ph1: "getAllResponsesWithParser P (normInput_of (refreshed P E) inp) target []
                  target (refreshed P E) = (rs1, ms1, E2)"
  shows "(rs1 \<noteq> [] \<or> target = ANY_USER \<longrightarrow>
            getAllResponses P inp target [] E = (rs1, ms1, E2)) \<and>
         (target \<noteq> ANY_USER \<longrightarrow>
            m_parsers E2 ANY_USER = m_parsers (refreshed P E) ANY_USER) \<and>
         (rs1 = [] \<and> target \<noteq> ANY_USER \<longrightarrow>
            getAllResponses P inp target [] E =
              getAllResponsesWithParser P (normInput_of (refreshed P E) inp) target []
                ANY_USER E2) \<and>
         (rs1 = [] \<and> target \<noteq> ANY_USER \<and> m_parsers (refreshed P E) ANY_USER = Some p \<and>
          parser_getResponse P (normInput_of (refreshed P E) inp)
            (parser_setTopic P (tracked_topic E2 target) p) = (response, categoriesId, p') \<longrightarrow>
            (\<exists>rs ms E'. getAllResponses P inp target [] E = (rs, ms, E') \<and>
               m_parsers E' ANY_USER = Some p') \<and>
            (response \<noteq> '''' \<and> response \<noteq> ''Internal Error!'' \<and> categoriesId \<noteq> [] \<longrightarrow>
               (\<exists>E'. getResponse P inp target E =
                  Inr (response,
                       [(getRuleId (last categoriesId), getInputNumber (last categoriesId))],
                       E'))))"
proof -
  define E1 where "E1 = refreshed P E"
  define n where "n = normInput_of E1 inp"
  note ph1' = ph1 [folded E1_def, folded n_def]
  have ms1: "ms1 = []" if "rs1 = []"
    using getAllResponsesWithParser_shape [OF ph1'] that by auto
  have c1: "getAllResponses P inp target [] E = (rs1, ms1, E2)"
    if "rs1 \<noteq> [] \<or> target = ANY_USER"
    using that ph1' by (auto simp: getAllResponses_def getAllResponses_inner_def Let_def
        E1_def n_def)
  have c2: "m_parsers E2 ANY_USER = m_parsers E1 ANY_USER" if "target \<noteq> ANY_USER"
    using getAllResponsesWithParser_frame(8) [OF ph1', of ANY_USER] that by auto
  have c3: "getAllResponses P inp target [] E =
              getAllResponsesWithParser P n target [] ANY_USER E2"
    if "rs1 = [] \<and> target \<noteq> ANY_USER"
    using that ph1' ms1 by (simp add: getAllResponses_def getAllResponses_inner_def Let_def
        E1_def n_def)
  have c4: "(\<exists>rs ms E'. getAllResponses P inp target [] E = (rs, ms, E') \<and>
               m_parsers E' ANY_USER = Some p') \<and>
            (response \<noteq> '''' \<and> response \<noteq> ''Internal Error!'' \<and> categoriesId \<noteq> [] \<longrightarrow>
               (\<exists>E'. getResponse P inp target E =
                  Inr (response,
                       [(getRuleId (last categoriesId), getInputNumber (last categoriesId))],
                       E')))"
    if a: "rs1 = [] \<and> target \<noteq> ANY_USER \<and> m_parsers E1 ANY_USER = Some p \<and>
          parser_getResponse P n (parser_setTopic P (tracked_topic E2 target) p)
            = (response, categoriesId, p')"
  proof -
    from a c2 have p: "m_parsers E2 ANY_USER = Some p" by simp
    from a have q: "parser_getResponse P n (parser_setTopic P (tracked_topic E2 target) p)
            = (response, categoriesId, p')" by simp
    note ph2 = getAllResponsesWithParser_Some [OF p q, of "[]"]
    from a have eq: "getAllResponses P inp target [] E =
              getAllResponsesWithParser P n target [] ANY_USER E2"
      by (intro c3) simp
    show ?thesis
      unfolding getResponse_def eq ph2 by (auto simp: eq ph2)
  qed
  show ?thesis
    using c1 c2 c3 c4 unfolding E1_def n_def by blast
qed

theorem two_phase_target_resolution_witness:
  "(\<exists>E'. getResponse simple_AIMLParser ''hello'' ''bob'' (setRules [rule_bob, rule7] null_engine)
      = Inr (''Hello Bob'', [(5, 0)], E')) \<and>
   (\<exists>E'. getResponse simple_AIMLParser ''hi'' ''bob'' (setRules [rule_bob, rule7] null_engine)
      = Inr (''Hi there'', [(7, 1)], E'))"
proof
  let ?E = "setRules [rule_bob, rule7] null_engine"
  let ?E1 = "refreshed simple_AIMLParser ?E"
  let ?n = "normInput_of ?E1 ''hi''"
  show "\<exists>E'. getResponse simple_AIMLParser ''hello'' ''bob'' ?E
      = Inr (''Hello Bob'', [(5, 0)], E')"
    by (simp add: example_defs rule_bob_def)
  define R where "R = getAllResponsesWithParser simple_AIMLParser ?n ''bob'' [] ''bob'' ?E1"
  define p where "p = the (m_parsers ?E1 ANY_USER)"
  define Q where "Q = parser_getResponse simple_AIMLParser ?n
                        (parser_setTopic simple_AIMLParser (tracked_topic (snd (snd R)) ''bob'') p)"
  have ph1: "getAllResponsesWithParser simple_AIMLParser ?n ''bob'' [] ''bob'' ?E1
               = (fst R, fst (snd R), snd (snd R))"
    by (simp add: R_def)
  have rs1: "fst R = []"
    by (simp add: R_def example_defs rule_bob_def)
  have tg: "''bob'' \<noteq> ANY_USER" by (simp add: ANY_USER_def)
  have p: "m_parsers ?E1 ANY_USER = Some p"
    by (simp add: p_def example_defs rule_bob_def)
  have q: "parser_getResponse simple_AIMLParser ?n
             (parser_setTopic simple_AIMLParser (tracked_topic (snd (snd R)) ''bob'') p)
           = (fst Q, fst (snd Q), snd (snd Q))"
    by (simp add: Q_def)
  have Q: "fst Q = ''Hi there''" "fst (snd Q) = [getCategoryId 7 1]"
    by (simp_all add: Q_def R_def p_def example_defs rule_bob_def)
  have valid: "fst Q \<noteq> '''' \<and> fst Q \<noteq> ''Internal Error!'' \<and> fst (snd Q) \<noteq> []"
    by (simp add: Q)
  from two_phase_target_resolution [OF ph1, where p = p and response = "fst Q"
      and categoriesId = "fst (snd Q)" and p' = "snd (snd Q)"] rs1 tg p q valid
  have "\<exists>E'. getResponse simple_AIMLParser ''hi'' ''bob'' ?E =
          Inr (fst Q, [(getRuleId (last (fst (snd Q))), getInputNumber (last (fst (snd Q))))], E')"
    by blast
  then show "\<exists>E'. getResponse simple_AIMLParser ''hi'' ''bob'' ?E
      = Inr (''Hi there'', [(7, 1)], E')"
    unfolding Q
    by (simp add: getCategoryId_def getRuleId_def getInputNumber_def INPUT_NUMBER_BITS_def
        INPUT_NUMBER_MASK_def)
qed

subsection \<open>Properties of the engine\<close>

text \<open>
  C7, as the specification states it: after \<open>setProperty(name, v)\<close>, \<open>property(name)\<close>
  returns \<open>v\<close>, for "prefer-current-topic" and for "output-mode". The engine has one
  property; for "output-mode" \<open>setProperty\<close> does nothing and \<open>property\<close> returns an invalid
  variant.
\<close>

theorem property_get_after_set_counterexample:
  "property ''output-mode'' (setProperty ''output-mode'' (QVariant_Int 1) null_engine)
     = QVariant_Invalid \<and>
   property ''output-mode'' (setProperty ''output-mode'' (QVariant_Bool True) null_engine)
     = QVariant_Invalid"
  by (simp add: property_def setProperty_def NLP_PROP_PREFER_CUR_TOPIC_def)

text \<open>
  C7, amended: after \<open>setProperty\<close> of "prefer-current-topic" to \<open>v\<close>, \<open>property\<close> of that name
  returns the truth value of \<open>v\<close>; the dirty flag is set when that value differs from the
  one stored, and the engine is then rebuilt, with the new value, before the next match.
  For any other name \<open>setProperty\<close> leaves the engine as it is and \<open>property\<close> returns an
  invalid variant.
\<close>

theorem property_get_after_set:
  "property NLP_PROP_PREFER_CUR_TOPIC (setProperty NLP_PROP_PREFER_CUR_TOPIC v E)
     = QVariant_Bool (toBool v) \<and>
   m_setTopics (setProperty NLP_PROP_PREFER_CUR_TOPIC v E) = toBool v \<and>
   m_dirty (setProperty NLP_PROP_PREFER_CUR_TOPIC v E)
     = (m_dirty E \<or> toBool v \<noteq> m_setTopics E) \<and>
   (toBool v \<noteq> m_setTopics E \<longrightarrow>
      refreshed P (setProperty NLP_PROP_PREFER_CUR_TOPIC v E) =
        (refreshAiml P (setProperty NLP_PROP_PREFER_CUR_TOPIC v E))\<lparr>m_dirty := False\<rparr>) \<and>
   (name \<noteq> NLP_PROP_PREFER_CUR_TOPIC \<longrightarrow>
      setProperty name v E = E \<and> property name E = QVariant_Invalid)"
  by (auto simp: property_def setProperty_def refreshed_def Let_def)

theorem property_get_after_set_witness:
  "property NLP_PROP_PREFER_CUR_TOPIC
     (setProperty NLP_PROP_PREFER_CUR_TOPIC (QVariant_Bool True) (setRules [rule7] null_engine))
     = QVariant_Bool True \<and>
   toBool (QVariant_Bool True) \<noteq> m_setTopics (setRules [rule7] null_engine) \<and>
   index_entry
     (refreshed simple_AIMLParser
        (setProperty NLP_PROP_PREFER_CUR_TOPIC (QVariant_Bool True) (setRules [rule7] null_engine)))
     rule7 1
     = [Topic '''' \<lparr>cat_id = getCategoryId 7 1, cat_pattern = ''hi'', cat_topic = '''',
                  cat_template = ''Hi there''\<rparr>,
        Topic '''' \<lparr>cat_id = getCategoryId 7 1, cat_pattern = ''hi'', cat_topic = '''',
                  cat_template = ''Hi there''\<rparr>]"
proof -
  let ?E = "setRules [rule7] null_engine"
  let ?S = "setProperty NLP_PROP_PREFER_CUR_TOPIC (QVariant_Bool True) ?E"
  note inst = property_get_after_set
    [where v = "QVariant_Bool True" and E = ?E and P = simple_AIMLParser]
  have ne: "toBool (QVariant_Bool True) \<noteq> m_setTopics ?E"
    by (simp add: setRules_def null_engine_def AimlEngine_new_def)
  from inst have 1: "property NLP_PROP_PREFER_CUR_TOPIC ?S = QVariant_Bool True"
    by simp
  from inst have st: "m_setTopics ?S = True" by simp
  have 3: "index_entry (refreshed simple_AIMLParser ?S) rule7 1
     = [Topic '''' \<lparr>cat_id = getCategoryId 7 1, cat_pattern = ''hi'', cat_topic = '''',
                  cat_template = ''Hi there''\<rparr>,
        Topic '''' \<lparr>cat_id = getCategoryId 7 1, cat_pattern = ''hi'', cat_topic = '''',
                  cat_template = ''Hi there''\<rparr>]"
    using st
    by (simp add: index_entry_def normalize_input_def rule7_def escape_def remove_def
        trimmed_def isSpace_def buildAimlRandOutput_def Let_def)
      (simp add: setProperty_def setRules_def null_engine_def AimlEngine_new_def Let_def)
  show ?thesis using 1 ne 3 by blast
qed

subsection \<open>The loop guard\<close>

lemma resolve_cycle:
  assumes "match1 a = Redirect b" and "match1 b = Redirect a"
  shows "resolve match1 depth a = ('''', []) \<and> resolve match1 depth b = ('''', [])"
  using assms by (induction depth) simp_all

lemma resubmissions_bound: "resubmissions match1 depth inp \<le> depth"
  by (induction depth arbitrary: inp) (simp_all split: pass.splits)

lemma resolve_unresolved:
  "redirect_chain match1 inp (Suc depth) \<noteq> None \<Longrightarrow> resolve match1 depth inp = ('''', [])"
  by (induction depth arbitrary: inp) (simp_all split: pass.splits)

lemma resolve_resolved:
  "redirect_chain match1 inp k = Some x \<Longrightarrow> k \<le> depth \<Longrightarrow> match1 x = Final out m \<Longrightarrow>
   resolve match1 depth inp = (out, [m])"
proof (induction depth arbitrary: inp k)
  case 0
  then show ?case by simp
next
  case (Suc depth)
  show ?case
  proof (cases k)
    case 0
    then show ?thesis using Suc.prems by simp
  next
    case (Suc j)
    then show ?thesis
      using Suc.prems Suc.IH [of _ j] by (auto split: pass.splits)
  qed
qed

text \<open>
  C8: for every matching pass and every maximum depth, \<open>resolve\<close> makes at most \<open>depth\<close>
  re-submissions (it is a total function: it returns for every input). When the chain of
  redirects is longer than the depth, the result is the empty output and the empty match
  list; so it is when A redirects to B and B to A. A chain that reaches a final output
  within the depth returns that output and its match.
\<close>

theorem loop_guard_termination:
  "resubmissions match1 depth inp \<le> depth \<and>
   (redirect_chain match1 inp (Suc depth) \<noteq> None \<longrightarrow> resolve match1 depth inp = ('''', [])) \<and>
   (match1 a = Redirect b \<and> match1 b = Redirect a \<longrightarrow> resolve match1 depth a = ('''', [])) \<and>
   (redirect_chain match1 inp k = Some x \<and> k \<le> depth \<and> match1 x = Final out m \<longrightarrow>
      resolve match1 depth inp = (out, [m]))"
proof (intro conjI impI)
  show "resubmissions match1 depth inp \<le> depth"
    by (rule resubmissions_bound)
  show "resolve match1 depth inp = ('''', [])"
    if "redirect_chain match1 inp (Suc depth) \<noteq> None"
    using that by (rule resolve_unresolved)
  show "resolve match1 depth a = ('''', [])"
    if "match1 a = Redirect b \<and> match1 b = Redirect a"
    using that resolve_cycle [of match1 a b depth] by simp
  show "resolve match1 depth inp = (out, [m])"
    if "redirect_chain match1 inp k = Some x \<and> k \<le> depth \<and> match1 x = Final out m"
    using that resolve_resolved [of match1 inp k x depth out m] by simp
qed

theorem loop_guard_termination_witness:
  "ping_pong ''A'' = Redirect ''B'' \<and> ping_pong ''B'' = Redirect ''A'' \<and>
   resolve ping_pong 5 ''A'' = ('''', []) \<and> resubmissions ping_pong 5 ''A'' = 5 \<and>
   resolve ping_pong 5 ''C'' = (''done'', [(4, 0)])"
proof -
  have ab: "ping_pong ''A'' = Redirect ''B'' \<and> ping_pong ''B'' = Redirect ''A''"
    by (simp add: ping_pong_def)
  with loop_guard_termination [where ?match1.0 = ping_pong and a = "''A''" and b = "''B''"
      and depth = 5]
  have "resolve ping_pong 5 ''A'' = ('''', [])" by blast
  moreover have "resubmissions ping_pong 5 ''A'' = 5"
    by (simp add: ping_pong_def eval_nat_numeral)
  moreover have "resolve ping_pong 5 ''C'' = (''done'', [(4, 0)])"
    by (simp add: ping_pong_def eval_nat_numeral)
  ultimately show ?thesis using ab by blast
qed

subsection \<open>The topic of a partner\<close>

lemma getAllResponsesWithParser_topics:
  "m_topics (snd (snd (getAllResponsesWithParser P n target ms parserName E))) =
     (case m_parsers E parserName of
        None \<Rightarrow> m_topics E
      | Some p \<Rightarrow>
          (m_topics E)(target \<mapsto>
            parser_topic P (snd (snd (parser_getResponse P n
              (parser_setTopic P (tracked_topic E target) p))))))"
  by (simp add: getAllResponsesWithParser_def Let_def split: option.splits prod.splits)

lemma getAllResponsesWithParser_topic_change:
  assumes "getAllResponsesWithParser P n target ms parserName E = (rs, ms', E')"
    and "tracked_topic E' target \<noteq> tracked_topic E target"
  shows "\<exists>p. m_parsers E parserName = Some p \<and>
           parser_topic P (snd (snd (parser_getResponse P n
             (parser_setTopic P (tracked_topic E target) p)))) \<noteq> tracked_topic E target"
proof -
  have t: "m_topics E' = m_topics (snd (snd (getAllResponsesWithParser P n target ms parserName E)))"
    using assms(1) by simp
  show ?thesis
  proof (cases "m_parsers E parserName")
    case None
    then show ?thesis
      using assms(2) t by (simp add: getAllResponsesWithParser_topics tracked_topic_def)
  next
    case (Some p)
    then show ?thesis
      using assms(2) t
      by (auto simp: getAllResponsesWithParser_topics tracked_topic_def)
  qed
qed

lemma tracked_topic_refreshed [simp]:
  "tracked_topic (refreshed P E) target = tracked_topic E target"
  by (simp add: tracked_topic_def)

text \<open>
  C5, as the specification states it: a call that matches no rule leaves the tracked topic
  of the partner unchanged. The engine stores the parser's topic before it looks at the
  response: the rule without outputs is matched by the parser, which takes its topic; the
  empty response is dropped, \<open>getResponse\<close> returns no match, and the tracked topic has
  changed from empty to the topic of that rule.
\<close>

theorem topic_update_discipline_counterexample:
  "tracked_topic (setRules [rule_silent] null_engine) ANY_USER = '''' \<and>
   (case getResponse simple_AIMLParser ''hush'' ANY_USER (setRules [rule_silent] null_engine) of
      Inl e \<Rightarrow> False
    | Inr (out, ms, E') \<Rightarrow> out = '''' \<and> ms = [] \<and> tracked_topic E' ANY_USER = ''secret'')"
  by (simp add: example_defs rule_silent_def)

text \<open>
  C5, amended: a call of \<open>getResponse\<close> changes the tracked topic of no other partner. Every
  query gives the parser the partner's tracked topic before it is asked and stores the
  topic the parser reports after it, whether or not a response counts; without a parser
  nothing is stored. So the tracked topic of the partner changes only when a parser that
  was asked reports another topic than the one it was given, and, for a parser that keeps
  its topic when it returns no category id, only when a parser that was asked returned a
  category id.
\<close>

theorem topic_update_discipline:
  assumes "getResponse P inp target E = Inr (out, ms, E')"
  shows "(\<forall>u. u \<noteq> target \<longrightarrow> m_topics E' u = m_topics E u) \<and>
         (tracked_topic E' target \<noteq> tracked_topic E target \<longrightarrow>
            (\<exists>parserName p tp.
               (parserName = target \<or> parserName = ANY_USER) \<and>
               m_parsers (refreshed P E) parserName = Some p \<and>
               parser_topic P (snd (snd (parser_getResponse P
                   (normInput_of (refreshed P E) inp) (parser_setTopic P tp p)))) \<noteq> tp)) \<and>
         ((\<forall>t n' p.
              fst (snd (parser_getResponse P n' (parser_setTopic P t p))) = [] \<longrightarrow>
              parser_topic P (snd (snd (parser_getResponse P n' (parser_setTopic P t p)))) = t) \<and>
          tracked_topic E' target \<noteq> tracked_topic E target \<longrightarrow>
            (\<exists>parserName p tp.
               (parserName = target \<or> parserName = ANY_USER) \<and>
               m_parsers (refreshed P E) parserName = Some p \<and>
               fst (snd (parser_getResponse P (normInput_of (refreshed P E) inp)
                           (parser_setTopic P tp p))) \<noteq> [])) \<and>
         (m_parsers E0 parserName = Some p0 \<longrightarrow>
            m_topics (snd (snd (getAllResponsesWithParser P n target ms0 parserName E0))) =
              (m_topics E0)(target \<mapsto>
                 parser_topic P (snd (snd (parser_getResponse P n
                   (parser_setTopic P (tracked_topic E0 target) p0)))))) \<and>
         (m_parsers E0 parserName = None \<longrightarrow>
            snd (snd (getAllResponsesWithParser P n target ms0 parserName E0)) = E0)"
proof -
  define E1 where "E1 = refreshed P E"
  define nI where "nI = normInput_of E1 inp"
  obtain rs ams where
    inner: "getAllResponses_inner P inp target [] E = (rs, ams, E')"
    using assms
    by (auto simp: getResponse_def getAllResponses_def split: prod.splits if_splits)
  have frame: "\<forall>u. u \<noteq> target \<longrightarrow> m_topics E' u = m_topics E u"
    using getAllResponses_inner_frame(5) [OF inner] by blast
  obtain rs1 ms1 E2 where
    ph1: "getAllResponsesWithParser P nI target [] target E1 = (rs1, ms1, E2)"
    by (cases "getAllResponsesWithParser P nI target [] target E1")
  obtain rs2 ms2 E3 where
    ph2: "getAllResponsesWithParser P nI target ms1 ANY_USER E2 = (rs2, ms2, E3)"
    by (cases "getAllResponsesWithParser P nI target ms1 ANY_USER E2")
  have E': "E' = E2 \<or> (target \<noteq> ANY_USER \<and> E' = E3)"
    using inner ph1 ph2
    by (auto simp: getAllResponses_inner_def Let_def E1_def nI_def split: if_splits)
  have relay: "\<exists>parserName p tp.
               (parserName = target \<or> parserName = ANY_USER) \<and>
               m_parsers (refreshed P E) parserName = Some p \<and>
               parser_topic P (snd (snd (parser_getResponse P
                   (normInput_of (refreshed P E) inp) (parser_setTopic P tp p)))) \<noteq> tp"
    if ch: "tracked_topic E' target \<noteq> tracked_topic E target"
  proof (cases "tracked_topic E2 target \<noteq> tracked_topic E1 target")
    case True
    from getAllResponsesWithParser_topic_change [OF ph1 True]
    show ?thesis unfolding E1_def nI_def by blast
  next
    case False
    then have same: "tracked_topic E2 target = tracked_topic E target"
      by (simp add: E1_def)
    with ch E' have t: "target \<noteq> ANY_USER" and E3: "E' = E3" by auto
    from ch E3 same have "tracked_topic E3 target \<noteq> tracked_topic E2 target" by simp
    from getAllResponsesWithParser_topic_change [OF ph2 this]
    obtain p where p: "m_parsers E2 ANY_USER = Some p"
      and c: "parser_topic P (snd (snd (parser_getResponse P nI
             (parser_setTopic P (tracked_topic E2 target) p)))) \<noteq> tracked_topic E2 target"
      by blast
    have "m_parsers E2 ANY_USER = m_parsers E1 ANY_USER"
      using getAllResponsesWithParser_frame(8) [OF ph1, of ANY_USER] t by auto
    with p have "m_parsers E1 ANY_USER = Some p" by simp
    with c show ?thesis unfolding E1_def nI_def by blast
  qed
  have kept: "\<exists>parserName p tp.
               (parserName = target \<or> parserName = ANY_USER) \<and>
               m_parsers (refreshed P E) parserName = Some p \<and>
               fst (snd (parser_getResponse P (normInput_of (refreshed P E) inp)
                           (parser_setTopic P tp p))) \<noteq> []"
    if c: "\<forall>t n' p.
              fst (snd (parser_getResponse P n' (parser_setTopic P t p))) = [] \<longrightarrow>
              parser_topic P (snd (snd (parser_getResponse P n' (parser_setTopic P t p)))) = t"
      and ch: "tracked_topic E' target \<noteq> tracked_topic E target"
  proof -
    from relay [OF ch] obtain parserName p tp where
      1: "parserName = target \<or> parserName = ANY_USER"
      and 2: "m_parsers (refreshed P E) parserName = Some p"
      and 3: "parser_topic P (snd (snd (parser_getResponse P
                   (normInput_of (refreshed P E) inp) (parser_setTopic P tp p)))) \<noteq> tp"
      by blast
    from c [rule_format, of "normInput_of (refreshed P E) inp" tp p] 3
    have "fst (snd (parser_getResponse P (normInput_of (refreshed P E) inp)
                           (parser_setTopic P tp p))) \<noteq> []"
      by blast
    with 1 2 show ?thesis by blast
  qed
  have q1: "m_topics (snd (snd (getAllResponsesWithParser P n target ms0 parserName E0))) =
              (m_topics E0)(target \<mapsto>
                 parser_topic P (snd (snd (parser_getResponse P n
                   (parser_setTopic P (tracked_topic E0 target) p0)))))"
    if "m_parsers E0 parserName = Some p0"
    using that by (simp add: getAllResponsesWithParser_topics)
  have q2: "snd (snd (getAllResponsesWithParser P n target ms0 parserName E0)) = E0"
    if "m_parsers E0 parserName = None"
    using that by (simp add: getAllResponsesWithParser_None)
  show ?thesis
  proof (intro conjI impI)
    show "\<forall>u. u \<noteq> target \<longrightarrow> m_topics E' u = m_topics E u" by (rule frame)
  next
    assume "tracked_topic E' target \<noteq> tracked_topic E target"
    then show "\<exists>parserName p tp.
               (parserName = target \<or> parserName = ANY_USER) \<and>
               m_parsers (refreshed P E) parserName = Some p \<and>
               parser_topic P (snd (snd (parser_getResponse P
                   (normInput_of (refreshed P E) inp) (parser_setTopic P tp p)))) \<noteq> tp"
      by (rule relay)
  next
    assume a: "(\<forall>t n' p.
              fst (snd (parser_getResponse P n' (parser_setTopic P t p))) = [] \<longrightarrow>
              parser_topic P (snd (snd (parser_getResponse P n' (parser_setTopic P t p)))) = t) \<and>
          tracked_topic E' target \<noteq> tracked_topic E target"
    show "\<exists>parserName p tp.
               (parserName = target \<or> parserName = ANY_USER) \<and>
               m_parsers (refreshed P E) parserName = Some p \<and>
               fst (snd (parser_getResponse P (normInput_of (refreshed P E) inp)
                           (parser_setTopic P tp p))) \<noteq> []"
      by (rule kept [OF conjunct1 [OF a] conjunct2 [OF a]])
  next
    assume "m_parsers E0 parserName = Some p0"
    then show "m_topics (snd (snd (getAllResponsesWithParser P n target ms0 parserName E0))) =
              (m_topics E0)(target \<mapsto>
                 parser_topic P (snd (snd (parser_getResponse P n
                   (parser_setTopic P (tracked_topic E0 target) p0)))))"
      by (rule q1)
  next
    assume "m_parsers E0 parserName = None"
    then show "snd (snd (getAllResponsesWithParser P n target ms0 parserName E0)) = E0"
      by (rule q2)
  qed
qed

theorem topic_update_discipline_witness:
  "\<exists>E'. getResponse simple_AIMLParser ''football'' ''bob''
           (setRules [rule_sports, rule7] null_engine)
         = Inr (''I like sports'', [(1, 0)], E') \<and>
        tracked_topic E' ''bob'' = ''sports'' \<and>
        m_topics E' ''alice'' = m_topics (setRules [rule_sports, rule7] null_engine) ''alice''"
proof -
  let ?E = "setRules [rule_sports, rule7] null_engine"
  have "\<exists>E'. getResponse simple_AIMLParser ''football'' ''bob'' ?E
                = Inr (''I like sports'', [(1, 0)], E') \<and> tracked_topic E' ''bob'' = ''sports''"
    by (simp add: example_defs rule_sports_def)
  then obtain E' where
    r: "getResponse simple_AIMLParser ''football'' ''bob'' ?E
          = Inr (''I like sports'', [(1, 0)], E')"
    and t: "tracked_topic E' ''bob'' = ''sports''"
    by blast
  from topic_update_discipline [OF r]
  have "\<forall>u. u \<noteq> ''bob'' \<longrightarrow> m_topics E' u = m_topics ?E u" by blast
  then have "m_topics E' ''alice'' = m_topics ?E ''alice''" by simp
  with r t show ?thesis by blast
qed

end
